theory Spec2Isabelle
  imports Main
begin

section \<open>The Arbiter service of the gateway: data model\<close>

text \<open>
  Source: \<^verbatim>\<open>apps/gateway/src/services/arbiter.service.ts\<close>.
  Identifiers are JavaScript strings, modelled as \<open>string\<close>. A \<^verbatim>\<open>Date\<close> is its number
  of milliseconds since the epoch, an \<open>int\<close>; a priority is a JavaScript number, taken
  here to be an integer. Every method reads the clock (\<^verbatim>\<open>new Date()\<close>, \<^verbatim>\<open>Date.now()\<close>);
  the value read is the parameter \<open>now\<close> of the model, one reading per call of a public
  method. The methods are \<^verbatim>\<open>async\<close> but none of them suspends between its first read and
  its last write of the service's fields (the only \<^verbatim>\<open>await\<close>s are on calls to
  \<^verbatim>\<open>acquireLock\<close>, whose body has no \<^verbatim>\<open>await\<close>), so on the single JavaScript thread each
  call is one step on the state. A call of an \<^verbatim>\<open>async\<close> method yields a promise; where the
  source uses the promise itself instead of awaiting it, the model does so too.
\<close>

record BusinessLock =
  resource :: string
  lockedBy :: string
  acquiredAt :: int
  expiresAt :: int
  priority :: int

datatype operation_kind = Read | Write | Exclusive

record CoordinationRequest =
  reqAgentId :: string
  reqResource :: string
  operation :: operation_kind
  expectedDurationMs :: int
  reqPriority :: int

text \<open>The value of an arithmetic expression of JavaScript: a number, or \<^verbatim>\<open>NaN\<close>.\<close>

datatype jsNumber = Number int | NaN

text \<open>The promise that a call of an \<^verbatim>\<open>async\<close> method without \<^verbatim>\<open>await\<close> in its body returns:
  it is already fulfilled with the method's result.\<close>

datatype 'a promise = Fulfilled 'a

text \<open>The fields of a \<^verbatim>\<open>CoordinationResult\<close> hold what the method stores in them at run time:
  \<^verbatim>\<open>queuePosition\<close> is assigned the promise of \<^verbatim>\<open>getQueuePosition\<close>, and \<^verbatim>\<open>estimatedWaitMs\<close>
  the value of a product.\<close>

record CoordinationResult =
  granted :: bool
  lock :: "BusinessLock option"
  queuePosition :: "int promise option"
  estimatedWaitMs :: "jsNumber option"

record QueueEntry =
  qAgentId :: string
  qResource :: string
  qPriority :: int
  requestedAt :: int

text \<open>The two private fields of the class: the \<^verbatim>\<open>Map\<close> of locks and the array of waiters.\<close>

record ArbiterService =
  locks :: "string \<rightharpoonup> BusinessLock"
  queue :: "QueueEntry list"

datatype error = ConflictException string

definition initial :: ArbiterService where
  "initial = \<lparr>locks = Map.empty, queue = []\<rparr>"

section \<open>Array helpers\<close>

text \<open>\<^verbatim>\<open>Array.prototype.findIndex\<close>: the index of the first element that satisfies the
  predicate, \<open>-1\<close> when there is none.\<close>

fun findIndex :: "('a \<Rightarrow> bool) \<Rightarrow> 'a list \<Rightarrow> int" where
  "findIndex P [] = - 1"
| "findIndex P (x # xs) =
     (if P x then 0
      else (let i = findIndex P xs in if i = - 1 then - 1 else i + 1))"

text \<open>\<^verbatim>\<open>xs.splice(index, 1)\<close> for an index within the array.\<close>

definition splice1 :: "int \<Rightarrow> 'a list \<Rightarrow> 'a list" where
  "splice1 index xs = take (nat index) xs @ drop (nat index + 1) xs"

text \<open>\<^verbatim>\<open>queue.sort((a, b) => b.priority - a.priority)\<close>: the sort of ECMAScript is stable,
  so the result is the stable arrangement by descending priority; \<open>sort_key\<close> is the stable
  insertion sort of the library, here on the negated priority.\<close>

definition sortByPriority :: "QueueEntry list \<Rightarrow> QueueEntry list" where
  "sortByPriority q = sort_key (\<lambda>e. - qPriority e) q"

text \<open>\<^verbatim>\<open>ToNumber\<close> of a promise: the object has no numeric primitive value, so the
  conversion gives \<^verbatim>\<open>NaN\<close>, whatever the promise is fulfilled with.\<close>

definition promiseToNumber :: "'a promise \<Rightarrow> jsNumber" where
  "promiseToNumber p = NaN"

text \<open>The operator \<^verbatim>\<open>*\<close> on two converted operands: \<^verbatim>\<open>NaN\<close> as soon as one of them is.\<close>

fun jsTimes :: "jsNumber \<Rightarrow> jsNumber \<Rightarrow> jsNumber" where
  "jsTimes (Number a) (Number b) = Number (a * b)"
| "jsTimes x y = NaN"

section \<open>The methods of the service\<close>

text \<open>\<^verbatim>\<open>getQueuePosition\<close> is \<^verbatim>\<open>async\<close>: the function below is the number that its promise is
  fulfilled with, which is what the controller, awaiting it, receives.\<close>

definition getQueuePosition :: "string \<Rightarrow> string \<Rightarrow> ArbiterService \<Rightarrow> int" where
  "getQueuePosition agentId res s =
     (let index = findIndex (\<lambda>q. qAgentId q = agentId \<and> qResource q = res) (queue s)
      in if index = - 1 then 0 else index + 1)"

definition addToQueue :: "int \<Rightarrow> CoordinationRequest \<Rightarrow> ArbiterService \<Rightarrow> ArbiterService" where
  "addToQueue now request s =
     (case List.find (\<lambda>q. qAgentId q = reqAgentId request \<and> qResource q = reqResource request)
             (queue s) of
        None \<Rightarrow>
          s\<lparr>queue := sortByPriority
               (queue s @ [\<lparr>qAgentId = reqAgentId request, qResource = reqResource request,
                            qPriority = reqPriority request, requestedAt = now\<rparr>])\<rparr>
      | Some existing \<Rightarrow> s)"

definition removeFromQueue :: "string \<Rightarrow> string \<Rightarrow> ArbiterService \<Rightarrow> ArbiterService" where
  "removeFromQueue agentId res s =
     (let index = findIndex (\<lambda>q. qAgentId q = agentId \<and> qResource q = res) (queue s)
      in if index \<noteq> - 1 then s\<lparr>queue := splice1 index (queue s)\<rparr> else s)"

text \<open>The object literal of \<^verbatim>\<open>acquireLock\<close>: a lease of 30 seconds from the clock reading.\<close>

definition newLock :: "int \<Rightarrow> string \<Rightarrow> string \<Rightarrow> int \<Rightarrow> BusinessLock" where
  "newLock now agentId res prio =
     \<lparr>resource = res, lockedBy = agentId, acquiredAt = now,
      expiresAt = now + 30000, priority = prio\<rparr>"

text \<open>\<^verbatim>\<open>acquireLock\<close> returns the lock or \<^verbatim>\<open>null\<close> (\<open>None\<close>). The \<^verbatim>\<open>console.log\<close> of the
  preemption branch writes no field of the service and is left out.\<close>

definition acquireLock ::
  "int \<Rightarrow> string \<Rightarrow> string \<Rightarrow> int \<Rightarrow> ArbiterService \<Rightarrow> BusinessLock option \<times> ArbiterService" where
  "acquireLock now agentId res prio s =
     (let existingLock = locks s res;
          blocked = (case existingLock of
                       None \<Rightarrow> False
                     | Some l \<Rightarrow> expiresAt l > now \<and> lockedBy l \<noteq> agentId
                                 \<and> \<not> (prio > priority l))
      in if blocked then (None, s)
         else (let l = newLock now agentId res prio
               in (Some l, removeFromQueue agentId res (s\<lparr>locks := (locks s)(res \<mapsto> l)\<rparr>))))"

text \<open>\<^verbatim>\<open>releaseLock\<close> returns \<^verbatim>\<open>{ released: b }\<close> (\<open>Inr b\<close>) or throws (\<open>Inl\<close>).\<close>

definition releaseLock ::
  "int \<Rightarrow> string \<Rightarrow> string \<Rightarrow> ArbiterService \<Rightarrow> (error + bool) \<times> ArbiterService" where
  "releaseLock now agentId res s =
     (case locks s res of
        None \<Rightarrow> (Inr False, s)
      | Some l \<Rightarrow>
          if lockedBy l \<noteq> agentId
          then (Inl (ConflictException
                  (''Lock on '' @ res @ '' is owned by '' @ lockedBy l @ '', not '' @ agentId)), s)
          else (let s1 = s\<lparr>locks := (locks s)(res := None)\<rparr>
                in case List.find (\<lambda>q. qResource q = res) (queue s1) of
                     Some nextInQueue \<Rightarrow>
                       (Inr True,
                        snd (acquireLock now (qAgentId nextInQueue) (qResource nextInQueue)
                               (qPriority nextInQueue) s1))
                   | None \<Rightarrow> (Inr True, s1)))"

text \<open>\<^verbatim>\<open>getLockStatus\<close> writes nothing; the state is returned as it was received.\<close>

definition getLockStatus ::
  "int \<Rightarrow> string \<Rightarrow> ArbiterService \<Rightarrow> BusinessLock option \<times> ArbiterService" where
  "getLockStatus now res s =
     (case locks s res of
        Some l \<Rightarrow> if expiresAt l > now then (Some l, s) else (None, s)
      | None \<Rightarrow> (None, s))"

text \<open>In the queued branch of \<^verbatim>\<open>requestCoordination\<close> the source calls \<^verbatim>\<open>getQueuePosition\<close>
  without \<^verbatim>\<open>await\<close>: \<^verbatim>\<open>position\<close> is the promise, stored as it is in \<^verbatim>\<open>queuePosition\<close> and
  multiplied by 5000 for \<^verbatim>\<open>estimatedWaitMs\<close>.\<close>

definition requestCoordination ::
  "int \<Rightarrow> CoordinationRequest \<Rightarrow> ArbiterService \<Rightarrow> CoordinationResult \<times> ArbiterService" where
  "requestCoordination now request s =
     (case (case locks s (reqResource request) of
              None \<Rightarrow> None
            | Some l \<Rightarrow> if expiresAt l > now then Some l else None) of
        Some existingLock \<Rightarrow>
          if lockedBy existingLock \<noteq> reqAgentId request then
            (let s1 = addToQueue now request s;
                 position = Fulfilled
                   (getQueuePosition (reqAgentId request) (reqResource request) s1)
             in (\<lparr>granted = False, lock = None, queuePosition = Some position,
                  estimatedWaitMs = Some (jsTimes (promiseToNumber position) (Number 5000))\<rparr>,
                 s1))
          else (\<lparr>granted = True, lock = Some existingLock, queuePosition = None,
                 estimatedWaitMs = None\<rparr>, s)
      | None \<Rightarrow>
          (case acquireLock now (reqAgentId request) (reqResource request)
                  (reqPriority request) s of
             (Some l, s1) \<Rightarrow>
               (\<lparr>granted = True, lock = Some l, queuePosition = None,
                 estimatedWaitMs = None\<rparr>, s1)
           | (None, s1) \<Rightarrow>
               (\<lparr>granted = False, lock = None, queuePosition = None,
                 estimatedWaitMs = None\<rparr>, s1)))"

section \<open>Sequences of calls\<close>

text \<open>The three mutating endpoints of the controller. The controller passes
  \<^verbatim>\<open>dto.priority\<close>, which may be absent; the default parameter \<^verbatim>\<open>priority = 0\<close> then
  applies.\<close>

datatype call =
    Coordinate CoordinationRequest
  | Acquire string string "int option"
  | Release string string

fun exec :: "int \<Rightarrow> call \<Rightarrow> ArbiterService \<Rightarrow> ArbiterService" where
  "exec now (Coordinate request) s = snd (requestCoordination now request s)"
| "exec now (Acquire agentId res prio) s =
     snd (acquireLock now agentId res (case prio of None \<Rightarrow> 0 | Some p \<Rightarrow> p) s)"
| "exec now (Release agentId res) s = snd (releaseLock now agentId res s)"

text \<open>A history is a list of calls, each with the clock reading of its moment.\<close>

fun run :: "(int \<times> call) list \<Rightarrow> ArbiterService \<Rightarrow> ArbiterService" where
  "run [] s = s"
| "run ((now, c) # evs) s = run evs (exec now c s)"

section \<open>Auxiliary notions for the proofs\<close>

text \<open>Removing the first element that satisfies a predicate: what \<^verbatim>\<open>findIndex\<close> followed by
  \<^verbatim>\<open>splice\<close> does, as one recursion.\<close>

fun removeFirst :: "('a \<Rightarrow> bool) \<Rightarrow> 'a list \<Rightarrow> 'a list" where
  "removeFirst P [] = []"
| "removeFirst P (x # xs) = (if P x then xs else x # removeFirst P xs)"

text \<open>The order of the queue: higher priority first, and among entries of one priority
  the earlier request first.\<close>

definition arrivalOrder :: "QueueEntry \<Rightarrow> QueueEntry \<Rightarrow> bool" where
  "arrivalOrder a b \<longleftrightarrow>
     qPriority b < qPriority a \<or> (qPriority a = qPriority b \<and> requestedAt a \<le> requestedAt b)"

text \<open>The queue is in that order and no entry was requested after the clock reading \<open>t\<close>.\<close>

definition queueOrdered :: "int \<Rightarrow> ArbiterService \<Rightarrow> bool" where
  "queueOrdered t s \<longleftrightarrow>
     sorted_wrt arrivalOrder (queue s) \<and> (\<forall>q\<in>set (queue s). requestedAt q \<le> t)"

text \<open>The pair that \<^verbatim>\<open>addToQueue\<close> and \<^verbatim>\<open>removeFromQueue\<close> search the queue by.\<close>

definition queueKey :: "QueueEntry \<Rightarrow> string \<times> string" where
  "queueKey q = (qAgentId q, qResource q)"

text \<open>Every lock of the table is stored under the resource that it names.\<close>

definition lockKeyed :: "ArbiterService \<Rightarrow> bool" where
  "lockKeyed s \<longleftrightarrow> (\<forall>r l. locks s r = Some l \<longrightarrow> resource l = r)"

text \<open>No caller is queued twice for one resource.\<close>

definition queueDistinct :: "ArbiterService \<Rightarrow> bool" where
  "queueDistinct s \<longleftrightarrow> distinct (map queueKey (queue s))"

text \<open>The queued entries for one resource, in queue order.\<close>

definition waiters :: "string \<Rightarrow> ArbiterService \<Rightarrow> QueueEntry list" where
  "waiters r s = filter (\<lambda>q. qResource q = r) (queue s)"

text \<open>The queue is in descending order of priority.\<close>

definition prioritySorted :: "ArbiterService \<Rightarrow> bool" where
  "prioritySorted s \<longleftrightarrow> sorted (map (\<lambda>e. - qPriority e) (queue s))"

section \<open>The specification's wording, for comparison\<close>

text \<open>The estimate as the specification words it: the sum of the remaining TTLs of the
  entries ahead of the request in the queue. A queue entry of the source carries no TTL, so
  the remaining TTL of an entry is a parameter.\<close>

definition spec_estimatedWaitMs :: "(QueueEntry \<Rightarrow> int) \<Rightarrow> ArbiterService \<Rightarrow> int \<Rightarrow> int" where
  "spec_estimatedWaitMs remainingTtl s position =
     sum_list (map remainingTtl (take (nat (position - 1)) (queue s)))"

text \<open>The only TTL of the source: the lease of 30 seconds that every grant receives.\<close>

definition leaseTtlMs :: "QueueEntry \<Rightarrow> int" where
  "leaseTtlMs e = 30000"

text \<open>The position as the specification words it: the 1-indexed rank of the caller among
  the queued entries for that resource, 0 when it has none.\<close>

definition spec_position_of :: "string \<Rightarrow> string \<Rightarrow> ArbiterService \<Rightarrow> int" where
  "spec_position_of caller res s =
     (let index = findIndex (\<lambda>q. qAgentId q = caller)
                    (filter (\<lambda>q. qResource q = res) (queue s))
      in if index = - 1 then 0 else index + 1)"

section \<open>Example inputs\<close>

text \<open>A coordination request with the fields that the service reads; the operation kind and
  the expected duration are never read by the service.\<close>

definition request :: "string \<Rightarrow> string \<Rightarrow> int \<Rightarrow> CoordinationRequest" where
  "request agentId res prio =
     \<lparr>reqAgentId = agentId, reqResource = res, operation = Exclusive,
      expectedDurationMs = 1000, reqPriority = prio\<rparr>"

section \<open>Facts about the array helpers\<close>

lemma findIndex_ge: "- 1 \<le> findIndex P xs"
  by (induction xs) (auto simp: Let_def)

lemma findIndex_none: "(findIndex P xs = - 1) = (\<forall>x\<in>set xs. \<not> P x)"
proof (induction xs)
  case Nil
  show ?case by simp
next
  case (Cons x xs)
  have "- 1 \<le> findIndex P xs" by (rule findIndex_ge)
  with Cons show ?case by (auto simp: Let_def)
qed

lemma findIndex_takeWhile:
  "\<exists>x\<in>set xs. P x \<Longrightarrow> findIndex P xs = int (length (takeWhile (\<lambda>x. \<not> P x) xs))"
proof (induction xs)
  case Nil
  then show ?case by simp
next
  case (Cons x xs)
  show ?case
  proof (cases "P x")
    case True
    then show ?thesis by simp
  next
    case False
    with Cons.prems have ex: "\<exists>y\<in>set xs. P y" by auto
    then have "findIndex P xs \<noteq> - 1" by (simp add: findIndex_none)
    with False Cons.IH [OF ex] show ?thesis by (simp add: Let_def)
  qed
qed

lemma splice1_findIndex:
  "\<exists>x\<in>set xs. P x \<Longrightarrow> splice1 (findIndex P xs) xs = removeFirst P xs"
proof (induction xs)
  case Nil
  then show ?case by simp
next
  case (Cons x xs)
  show ?case
  proof (cases "P x")
    case True
    then show ?thesis by (simp add: splice1_def)
  next
    case False
    with Cons.prems have ex: "\<exists>y\<in>set xs. P y" by auto
    then have ne: "findIndex P xs \<noteq> - 1" by (simp add: findIndex_none)
    have ge: "- 1 \<le> findIndex P xs" by (rule findIndex_ge)
    from ne ge have nn: "0 \<le> findIndex P xs" by linarith
    then have "nat (findIndex P xs + 1) = Suc (nat (findIndex P xs))" by linarith
    with False ne Cons.IH [OF ex] show ?thesis
      by (simp add: Let_def splice1_def)
  qed
qed

lemma removeFirst_none: "\<forall>x\<in>set xs. \<not> P x \<Longrightarrow> removeFirst P xs = xs"
  by (induction xs) auto

lemma queue_removeFromQueue:
  "queue (removeFromQueue a r s) = removeFirst (\<lambda>q. qAgentId q = a \<and> qResource q = r) (queue s)"
proof (cases "\<exists>x\<in>set (queue s). qAgentId x = a \<and> qResource x = r")
  case True
  then have "findIndex (\<lambda>q. qAgentId q = a \<and> qResource q = r) (queue s) \<noteq> - 1"
    by (simp add: findIndex_none)
  with True show ?thesis
    by (simp add: removeFromQueue_def Let_def splice1_findIndex)
next
  case False
  then have "findIndex (\<lambda>q. qAgentId q = a \<and> qResource q = r) (queue s) = - 1"
    by (simp add: findIndex_none)
  with False show ?thesis
    by (simp add: removeFromQueue_def Let_def removeFirst_none)
qed

lemma locks_removeFromQueue: "locks (removeFromQueue a r s) = locks s"
  by (simp add: removeFromQueue_def Let_def)

lemma set_removeFirst: "set (removeFirst P xs) \<subseteq> set xs"
  by (induction xs) auto

lemma sorted_wrt_removeFirst: "sorted_wrt R xs \<Longrightarrow> sorted_wrt R (removeFirst P xs)"
proof (induction xs)
  case Nil
  then show ?case by simp
next
  case (Cons x xs)
  then show ?case using set_removeFirst [of P xs] by auto
qed

lemma distinct_map_removeFirst:
  "distinct (map f xs) \<Longrightarrow> distinct (map f (removeFirst P xs))"
proof (induction xs)
  case Nil
  then show ?case by simp
next
  case (Cons x xs)
  then show ?case using set_removeFirst [of P xs] by auto
qed

lemma sort_key_snoc_sorted:
  "sorted (map f xs) \<Longrightarrow>
   sort_key f (xs @ [e]) = takeWhile (\<lambda>y. f y \<le> f e) xs @ e # dropWhile (\<lambda>y. f y \<le> f e) xs"
proof (induction xs)
  case Nil
  show ?case by simp
next
  case (Cons x xs)
  from Cons.prems have sx: "sorted (map f xs)" and le: "\<forall>y\<in>set xs. f x \<le> f y"
    by auto
  note IH = Cons.IH [OF sx]
  show ?case
  proof (cases "f x \<le> f e")
    case True
    have "\<forall>y\<in>set (takeWhile (\<lambda>y. f y \<le> f e) xs @ e # dropWhile (\<lambda>y. f y \<le> f e) xs). f x \<le> f y"
      using le True by (auto dest: set_takeWhileD set_dropWhileD)
    then have "insort_key f x (takeWhile (\<lambda>y. f y \<le> f e) xs @ e # dropWhile (\<lambda>y. f y \<le> f e) xs)
               = x # takeWhile (\<lambda>y. f y \<le> f e) xs @ e # dropWhile (\<lambda>y. f y \<le> f e) xs"
      by (rule insort_is_Cons)
    with True IH show ?thesis by simp
  next
    case False
    then have all: "\<forall>y\<in>set xs. \<not> f y \<le> f e" using le by fastforce
    have tw: "takeWhile (\<lambda>y. f y \<le> f e) xs = []"
      using all by (cases xs) auto
    have dw: "dropWhile (\<lambda>y. f y \<le> f e) xs = xs"
      using all by (cases xs) auto
    have "insort_key f x xs = x # xs" using le by (rule insort_is_Cons)
    with False IH tw dw show ?thesis by simp
  qed
qed

section \<open>The effect of each method on the two fields\<close>

lemma acquireLock_locks:
  "locks (snd (acquireLock now a r p s)) =
     (if fst (acquireLock now a r p s) = None then locks s
      else (locks s)(r \<mapsto> newLock now a r p))"
  by (simp add: acquireLock_def Let_def locks_removeFromQueue)

lemma acquireLock_queue:
  "queue (snd (acquireLock now a r p s)) =
     (if fst (acquireLock now a r p s) = None then queue s
      else removeFirst (\<lambda>q. qAgentId q = a \<and> qResource q = r) (queue s))"
  by (simp add: acquireLock_def Let_def queue_removeFromQueue)

lemma releaseLock_locks:
  "locks (snd (releaseLock now a r s)) =
     (case locks s r of
        None \<Rightarrow> locks s
      | Some l \<Rightarrow>
          if lockedBy l \<noteq> a then locks s
          else (case List.find (\<lambda>q. qResource q = r) (queue s) of
                  None \<Rightarrow> (locks s)(r := None)
                | Some e \<Rightarrow> (locks s)(r \<mapsto> newLock now (qAgentId e) r (qPriority e))))"
  by (auto simp: releaseLock_def Let_def acquireLock_def locks_removeFromQueue
           split: option.splits dest: find_Some_iff [THEN iffD1])

lemma releaseLock_queue:
  "queue (snd (releaseLock now a r s)) =
     (case locks s r of
        None \<Rightarrow> queue s
      | Some l \<Rightarrow>
          if lockedBy l \<noteq> a then queue s
          else (case List.find (\<lambda>q. qResource q = r) (queue s) of
                  None \<Rightarrow> queue s
                | Some e \<Rightarrow> removeFirst (\<lambda>q. qAgentId q = qAgentId e \<and> qResource q = r) (queue s)))"
  by (auto simp: releaseLock_def Let_def acquireLock_def queue_removeFromQueue
           split: option.splits dest: find_Some_iff [THEN iffD1])

lemma addToQueue_locks: "locks (addToQueue now req s) = locks s"
  by (simp add: addToQueue_def split: option.splits)

lemma requestCoordination_locks:
  "locks (snd (requestCoordination now req s)) =
     (case locks s (reqResource req) of
        None \<Rightarrow> (locks s)(reqResource req \<mapsto> newLock now (reqAgentId req) (reqResource req) (reqPriority req))
      | Some l \<Rightarrow>
          if expiresAt l > now then locks s
          else (locks s)(reqResource req \<mapsto> newLock now (reqAgentId req) (reqResource req) (reqPriority req)))"
  by (auto simp: requestCoordination_def Let_def acquireLock_def locks_removeFromQueue
         addToQueue_locks split: option.splits)

lemma requestCoordination_queue:
  "queue (snd (requestCoordination now req s)) =
     (case locks s (reqResource req) of
        None \<Rightarrow> removeFirst (\<lambda>q. qAgentId q = reqAgentId req \<and> qResource q = reqResource req) (queue s)
      | Some l \<Rightarrow>
          if expiresAt l > now then
            (if lockedBy l \<noteq> reqAgentId req then queue (addToQueue now req s) else queue s)
          else removeFirst (\<lambda>q. qAgentId q = reqAgentId req \<and> qResource q = reqResource req) (queue s))"
  by (auto simp: requestCoordination_def Let_def acquireLock_def queue_removeFromQueue
         split: option.splits)

lemma lockKeyed_exec: "lockKeyed s \<Longrightarrow> lockKeyed (exec now c s)"
proof (cases c)
  case (Coordinate req)
  assume "lockKeyed s"
  then show ?thesis unfolding Coordinate exec.simps
    by (auto simp: lockKeyed_def requestCoordination_locks newLock_def
             split: option.splits if_splits)
next
  case (Acquire a r p)
  assume "lockKeyed s"
  then show ?thesis unfolding Acquire exec.simps
    by (auto simp: lockKeyed_def acquireLock_locks newLock_def split: if_splits)
next
  case (Release a r)
  assume "lockKeyed s"
  then show ?thesis unfolding Release exec.simps
    by (auto simp: lockKeyed_def releaseLock_locks newLock_def
             split: option.splits if_splits)
qed

lemma lockKeyed_run: "lockKeyed s \<Longrightarrow> lockKeyed (run evs s)"
  by (induction evs s rule: run.induct) (simp_all add: lockKeyed_exec)

lemma lockKeyed_initial: "lockKeyed initial"
  by (simp add: lockKeyed_def initial_def)

lemmas arbiter_eval =
  initial_def requestCoordination_def acquireLock_def releaseLock_def addToQueue_def
  removeFromQueue_def getQueuePosition_def getLockStatus_def newLock_def splice1_def
  sortByPriority_def promiseToNumber_def Let_def

lemma removeFirst_remove1:
  "List.find P xs = Some e \<Longrightarrow> Q e \<Longrightarrow> (\<And>x. Q x \<Longrightarrow> P x) \<Longrightarrow> removeFirst Q xs = remove1 e xs"
proof (induction xs)
  case Nil
  then show ?case by simp
next
  case (Cons x xs)
  show ?case
  proof (cases "P x")
    case True
    with Cons.prems(1) have "x = e" by simp
    with Cons.prems(2) show ?thesis by simp
  next
    case False
    with Cons.prems(1) have f: "List.find P xs = Some e" by simp
    from False Cons.prems(3) have nq: "\<not> Q x" by blast
    from False f have "x \<noteq> e" by (auto dest: find_Some_iff [THEN iffD1])
    with nq Cons.IH [OF f Cons.prems(2) Cons.prems(3)] show ?thesis by simp
  qed
qed

lemma find_resource_P:
  "List.find (\<lambda>q. qResource q = r) xs = Some e \<Longrightarrow> qResource e = r"
  by (auto dest: find_Some_iff [THEN iffD1])

lemma releaseLock_holder:
  assumes "locks s r = Some l" and "lockedBy l = a"
  shows "fst (releaseLock now a r s) = Inr True"
    and "locks (snd (releaseLock now a r s)) r =
       (case List.find (\<lambda>q. qResource q = r) (queue s) of
          None \<Rightarrow> None
        | Some e \<Rightarrow> Some (newLock now (qAgentId e) r (qPriority e)))"
    and "queue (snd (releaseLock now a r s)) =
       (case List.find (\<lambda>q. qResource q = r) (queue s) of
          None \<Rightarrow> queue s
        | Some e \<Rightarrow> remove1 e (queue s))"
proof -
  show "fst (releaseLock now a r s) = Inr True"
    using assms by (simp add: releaseLock_def Let_def split: option.splits)
  show "locks (snd (releaseLock now a r s)) r =
       (case List.find (\<lambda>q. qResource q = r) (queue s) of
          None \<Rightarrow> None
        | Some e \<Rightarrow> Some (newLock now (qAgentId e) r (qPriority e)))"
    using assms by (simp add: releaseLock_locks split: option.splits)
  show "queue (snd (releaseLock now a r s)) =
       (case List.find (\<lambda>q. qResource q = r) (queue s) of
          None \<Rightarrow> queue s
        | Some e \<Rightarrow> remove1 e (queue s))"
  proof (cases "List.find (\<lambda>q. qResource q = r) (queue s)")
    case None
    with assms show ?thesis by (simp add: releaseLock_queue)
  next
    case (Some e)
    have re: "qResource e = r" using Some by (rule find_resource_P)
    have "removeFirst (\<lambda>q. qAgentId q = qAgentId e \<and> qResource q = r) (queue s)
          = remove1 e (queue s)"
      using Some by (rule removeFirst_remove1) (simp_all add: re)
    with assms Some show ?thesis by (simp add: releaseLock_queue)
  qed
qed

lemma find_Some_member: "List.find P xs = Some x \<Longrightarrow> P x \<and> x \<in> set xs"
  by (induction xs) (auto split: if_splits)

lemma addToQueue_member:
  "\<exists>q\<in>set (queue (addToQueue now req s)).
      qAgentId q = reqAgentId req \<and> qResource q = reqResource req"
  by (auto simp: addToQueue_def sortByPriority_def split: option.splits
           dest: find_Some_member)

lemma getQueuePosition_pos:
  "\<exists>q\<in>set (queue s). qAgentId q = a \<and> qResource q = r \<Longrightarrow> 1 \<le> getQueuePosition a r s"
proof -
  assume ex: "\<exists>q\<in>set (queue s). qAgentId q = a \<and> qResource q = r"
  then have "findIndex (\<lambda>q. qAgentId q = a \<and> qResource q = r) (queue s) \<noteq> - 1"
    by (simp add: findIndex_none)
  moreover have "- 1 \<le> findIndex (\<lambda>q. qAgentId q = a \<and> qResource q = r) (queue s)"
    by (rule findIndex_ge)
  ultimately show ?thesis by (simp add: getQueuePosition_def Let_def)
qed

lemma requestCoordination_queued:
  assumes "locks s (reqResource req) = Some l" and "now < expiresAt l"
    and "lockedBy l \<noteq> reqAgentId req"
  shows "requestCoordination now req s =
      (\<lparr>granted = False, lock = None,
        queuePosition = Some (Fulfilled
          (getQueuePosition (reqAgentId req) (reqResource req) (addToQueue now req s))),
        estimatedWaitMs = Some NaN\<rparr>,
       addToQueue now req s)"
  using assms by (simp add: requestCoordination_def Let_def promiseToNumber_def)

lemmas ex_eval = arbiter_eval request_def

section \<open>The queue holds each caller once per resource\<close>

lemma find_None_key:
  "List.find (\<lambda>q. qAgentId q = a \<and> qResource q = r) xs = None \<Longrightarrow> (a, r) \<notin> queueKey ` set xs"
  by (auto simp: find_None_iff queueKey_def)

lemma queueDistinct_addToQueue: "queueDistinct s \<Longrightarrow> queueDistinct (addToQueue now req s)"
proof (cases "List.find (\<lambda>q. qAgentId q = reqAgentId req \<and> qResource q = reqResource req) (queue s)")
  case (Some e)
  assume "queueDistinct s"
  with Some show ?thesis by (simp add: addToQueue_def)
next
  case None
  assume d: "queueDistinct s"
  let ?e = "\<lparr>qAgentId = reqAgentId req, qResource = reqResource req,
             qPriority = reqPriority req, requestedAt = now\<rparr>"
  from None have nk: "queueKey ?e \<notin> queueKey ` set (queue s)"
    using find_None_key [OF None] by (simp add: queueKey_def)
  from d have dq: "distinct (queue s)" and inj: "inj_on queueKey (set (queue s))"
    by (simp_all add: queueDistinct_def distinct_map)
  from nk have ne: "?e \<notin> set (queue s)" by blast
  from inj nk have inj': "inj_on queueKey (insert ?e (set (queue s)))"
    by (simp add: inj_on_insert) blast
  have "distinct (map queueKey (sortByPriority (queue s @ [?e])))"
    using dq ne inj' by (simp add: distinct_map sortByPriority_def)
  with None show ?thesis by (simp add: addToQueue_def queueDistinct_def)
qed

lemma queueDistinct_removeFirst:
  "queueDistinct s \<Longrightarrow> queue s' = removeFirst P (queue s) \<Longrightarrow> queueDistinct s'"
  by (simp add: queueDistinct_def distinct_map_removeFirst)

lemma queueDistinct_same: "queueDistinct s \<Longrightarrow> queue s' = queue s \<Longrightarrow> queueDistinct s'"
  by (simp add: queueDistinct_def)

lemma queueDistinct_exec: "queueDistinct s \<Longrightarrow> queueDistinct (exec now c s)"
proof (cases c)
  case (Coordinate req)
  assume d: "queueDistinct s"
  show ?thesis unfolding Coordinate exec.simps
    using d queueDistinct_addToQueue [OF d, of now req]
    by (simp add: queueDistinct_def requestCoordination_queue distinct_map_removeFirst
             split: option.splits)
next
  case (Acquire a r p)
  assume d: "queueDistinct s"
  show ?thesis unfolding Acquire exec.simps
    using d
    by (simp add: queueDistinct_def acquireLock_queue distinct_map_removeFirst)
next
  case (Release a r)
  assume d: "queueDistinct s"
  show ?thesis unfolding Release exec.simps
    using d
    by (simp add: queueDistinct_def releaseLock_queue distinct_map_removeFirst
             split: option.splits)
qed

lemma queueDistinct_run: "queueDistinct s \<Longrightarrow> queueDistinct (run evs s)"
  by (induction evs s rule: run.induct) (simp_all add: queueDistinct_exec)

lemma queueDistinct_initial: "queueDistinct initial"
  by (simp add: queueDistinct_def initial_def)

lemma findIndex_filter:
  "findIndex (\<lambda>q. qAgentId q = a) (filter (\<lambda>q. qResource q = r) xs) =
     (if \<exists>q\<in>set xs. qAgentId q = a \<and> qResource q = r
      then int (length (filter (\<lambda>q. qResource q = r)
                  (takeWhile (\<lambda>q. \<not> (qAgentId q = a \<and> qResource q = r)) xs)))
      else - 1)"
proof (induction xs)
  case Nil
  show ?case by simp
next
  case (Cons x xs)
  show ?case
  proof (cases "\<exists>q\<in>set xs. qAgentId q = a \<and> qResource q = r")
    case True
    with Cons show ?thesis by (auto simp: Let_def)
  next
    case False
    with Cons show ?thesis by (auto simp: Let_def)
  qed
qed

section \<open>The queue is ordered by priority, then by arrival\<close>

lemma dropWhile_sorted_above:
  "sorted (map f xs) \<Longrightarrow> \<forall>y\<in>set (dropWhile (\<lambda>y. f y \<le> k) xs). k < (f y :: int)"
proof (induction xs)
  case Nil
  show ?case by simp
next
  case (Cons x xs)
  from Cons.prems have sx: "sorted (map f xs)" and le: "\<forall>y\<in>set xs. f x \<le> f y"
    by auto
  show ?case
  proof (cases "f x \<le> k")
    case True
    with Cons.IH [OF sx] show ?thesis by simp
  next
    case False
    with le show ?thesis by fastforce
  qed
qed

lemma arrivalOrder_sorted:
  "sorted_wrt arrivalOrder xs \<Longrightarrow> sorted (map (\<lambda>e. - qPriority e) xs)"
proof -
  assume "sorted_wrt arrivalOrder xs"
  then have "sorted_wrt (\<lambda>x y. - qPriority x \<le> - qPriority y) xs"
    by (rule sorted_wrt_mono_rel [rotated]) (auto simp: arrivalOrder_def)
  then show ?thesis by (simp add: sorted_map)
qed

lemma queueOrdered_addToQueue:
  assumes ord: "queueOrdered t s" and le: "t \<le> t'"
  shows "queueOrdered t' (addToQueue t' req s)"
proof (cases "List.find (\<lambda>q. qAgentId q = reqAgentId req \<and> qResource q = reqResource req) (queue s)")
  case (Some e)
  with ord le show ?thesis by (fastforce simp: addToQueue_def queueOrdered_def)
next
  case None
  let ?e = "\<lparr>qAgentId = reqAgentId req, qResource = reqResource req,
             qPriority = reqPriority req, requestedAt = t'\<rparr>"
  let ?f = "\<lambda>e. - qPriority e"
  let ?tw = "takeWhile (\<lambda>y. ?f y \<le> ?f ?e) (queue s)"
  let ?dw = "dropWhile (\<lambda>y. ?f y \<le> ?f ?e) (queue s)"
  from ord have sw: "sorted_wrt arrivalOrder (queue s)"
    and bound: "\<forall>q\<in>set (queue s). requestedAt q \<le> t"
    by (simp_all add: queueOrdered_def)
  have srt: "sorted (map ?f (queue s))" using sw by (rule arrivalOrder_sorted)
  have q': "queue (addToQueue t' req s) = ?tw @ ?e # ?dw"
    using None sort_key_snoc_sorted [OF srt, of ?e]
    by (simp add: addToQueue_def sortByPriority_def)
  have split: "?tw @ ?dw = queue s" by simp
  from sw have sw': "sorted_wrt arrivalOrder (?tw @ ?dw)" by (simp only: split)
  have tw_e: "\<forall>x\<in>set ?tw. arrivalOrder x ?e"
  proof
    fix x assume x: "x \<in> set ?tw"
    then have "?f x \<le> ?f ?e" by (rule set_takeWhileD [THEN conjunct2])
    moreover from x have "x \<in> set (queue s)" by (rule set_takeWhileD [THEN conjunct1])
    with bound le have "requestedAt x \<le> t'" by fastforce
    ultimately show "arrivalOrder x ?e" by (auto simp: arrivalOrder_def)
  qed
  have e_dw: "\<forall>y\<in>set ?dw. arrivalOrder ?e y"
    using dropWhile_sorted_above [OF srt, of "?f ?e"] by (auto simp: arrivalOrder_def)
  have parts: "sorted_wrt arrivalOrder ?tw \<and> sorted_wrt arrivalOrder ?dw
      \<and> (\<forall>x\<in>set ?tw. \<forall>y\<in>set ?dw. arrivalOrder x y)"
    using sorted_wrt_append [THEN iffD1, OF sw'] by blast
  have "sorted_wrt arrivalOrder (?tw @ ?e # ?dw)"
    using parts tw_e e_dw by (simp add: sorted_wrt_append)
  moreover have "\<forall>q\<in>set (?tw @ ?e # ?dw). requestedAt q \<le> t'"
  proof
    fix q assume "q \<in> set (?tw @ ?e # ?dw)"
    then have "q = ?e \<or> q \<in> set (queue s)"
      by (auto dest: set_takeWhileD set_dropWhileD)
    with bound le show "requestedAt q \<le> t'" by fastforce
  qed
  ultimately show ?thesis by (simp add: queueOrdered_def q')
qed

lemma queueOrdered_removeFirst:
  "queueOrdered t s \<Longrightarrow> t \<le> t' \<Longrightarrow> queue s' = removeFirst P (queue s) \<Longrightarrow> queueOrdered t' s'"
  using set_removeFirst [of P "queue s"]
  by (fastforce simp: queueOrdered_def sorted_wrt_removeFirst)

lemma queueOrdered_same:
  "queueOrdered t s \<Longrightarrow> t \<le> t' \<Longrightarrow> queue s' = queue s \<Longrightarrow> queueOrdered t' s'"
  by (fastforce simp: queueOrdered_def)

lemma queueOrdered_exec:
  assumes ord: "queueOrdered t s" and le: "t \<le> t'"
  shows "queueOrdered t' (exec t' c s)"
proof (cases c)
  case (Coordinate req)
  have "queue (exec t' c s) = queue (addToQueue t' req s)
        \<or> queue (exec t' c s) = queue s
        \<or> queue (exec t' c s) =
            removeFirst (\<lambda>q. qAgentId q = reqAgentId req \<and> qResource q = reqResource req) (queue s)"
    unfolding Coordinate exec.simps
    by (simp add: requestCoordination_queue split: option.splits)
  then show ?thesis
    using queueOrdered_addToQueue [OF ord le, of req] ord le
    by (auto intro: queueOrdered_same queueOrdered_removeFirst simp: le)
next
  case (Acquire a r p)
  have "queue (exec t' c s) = queue s
        \<or> queue (exec t' c s) = removeFirst (\<lambda>q. qAgentId q = a \<and> qResource q = r) (queue s)"
    unfolding Acquire exec.simps by (simp add: acquireLock_queue)
  then show ?thesis using ord le
    by (auto intro: queueOrdered_same queueOrdered_removeFirst)
next
  case (Release a r)
  show ?thesis
  proof (cases "locks s r")
    case None
    then have "queue (exec t' c s) = queue s"
      unfolding Release exec.simps by (simp add: releaseLock_queue)
    with ord le show ?thesis by (rule queueOrdered_same)
  next
    case (Some l)
    show ?thesis
    proof (cases "List.find (\<lambda>q. qResource q = r) (queue s)")
      case None
      with Some have "queue (exec t' c s) = queue s"
        unfolding Release exec.simps by (simp add: releaseLock_queue)
      with ord le show ?thesis by (rule queueOrdered_same)
    next
      case (Some e)
      show ?thesis
      proof (cases "lockedBy l = a")
        case True
        with Some \<open>locks s r = Some l\<close>
        have "queue (exec t' c s) =
                removeFirst (\<lambda>q. qAgentId q = qAgentId e \<and> qResource q = r) (queue s)"
          unfolding Release exec.simps by (simp add: releaseLock_queue)
        with ord le show ?thesis by (rule queueOrdered_removeFirst)
      next
        case False
        with \<open>locks s r = Some l\<close> have "queue (exec t' c s) = queue s"
          unfolding Release exec.simps by (simp add: releaseLock_queue)
        with ord le show ?thesis by (rule queueOrdered_same)
      qed
    qed
  qed
qed

lemma queueOrdered_run:
  "queueOrdered t s \<Longrightarrow> sorted (t # map fst evs) \<Longrightarrow> \<exists>t'. queueOrdered t' (run evs s)"
proof (induction evs arbitrary: t s)
  case Nil
  then show ?case by auto
next
  case (Cons ev evs)
  obtain t1 c where ev: "ev = (t1, c)" by (cases ev)
  from Cons.prems(2) ev have le: "t \<le> t1" and srt: "sorted (t1 # map fst evs)"
    by auto
  have "queueOrdered t1 (exec t1 c s)" using Cons.prems(1) le by (rule queueOrdered_exec)
  from Cons.IH [OF this srt] show ?case by (simp add: ev)
qed

lemma arrivalOrder_reachable:
  "sorted (map fst evs) \<Longrightarrow> sorted_wrt arrivalOrder (queue (run evs initial))"
proof (cases evs)
  case Nil
  then show ?thesis by (simp add: initial_def)
next
  case (Cons ev rest)
  assume srt: "sorted (map fst evs)"
  have "queueOrdered (fst ev) initial" by (simp add: queueOrdered_def initial_def)
  moreover from srt Cons have "sorted (fst ev # map fst evs)" by simp
  ultimately obtain t' where "queueOrdered t' (run evs initial)"
    using queueOrdered_run by blast
  then show ?thesis by (simp add: queueOrdered_def)
qed

lemma find_sorted_wrt_first:
  "sorted_wrt R xs \<Longrightarrow> List.find P xs = Some e \<Longrightarrow> q \<in> set xs \<Longrightarrow> P q \<Longrightarrow> q = e \<or> R e q"
proof (induction xs)
  case Nil
  then show ?case by simp
next
  case (Cons x xs)
  show ?case
  proof (cases "P x")
    case True
    with Cons.prems show ?thesis by auto
  next
    case False
    with Cons.prems have "List.find P xs = Some e" and "q \<in> set xs" and "sorted_wrt R xs"
      by auto
    then show ?thesis using Cons.IH Cons.prems(4) by blast
  qed
qed

lemma promoted_is_best:
  assumes srt: "sorted (map fst evs)"
    and f: "List.find (\<lambda>q. qResource q = r) (queue (run evs initial)) = Some e"
    and q: "q \<in> set (queue (run evs initial))" and r: "qResource q = r"
  shows "qPriority q \<le> qPriority e \<and> (qPriority q = qPriority e \<longrightarrow> requestedAt e \<le> requestedAt q)"
proof -
  have "sorted_wrt arrivalOrder (queue (run evs initial))"
    using srt by (rule arrivalOrder_reachable)
  from find_sorted_wrt_first [OF this f q r] show ?thesis
    by (auto simp: arrivalOrder_def)
qed

lemma sorted_map_removeFirst:
  "sorted (map f xs) \<Longrightarrow> sorted (map f (removeFirst P xs))"
  by (simp add: sorted_map sorted_wrt_removeFirst)

lemma prioritySorted_addToQueue: "prioritySorted s \<Longrightarrow> prioritySorted (addToQueue now req s)"
  by (simp add: prioritySorted_def addToQueue_def sortByPriority_def split: option.splits)

lemma prioritySorted_exec: "prioritySorted s \<Longrightarrow> prioritySorted (exec now c s)"
proof (cases c)
  case (Coordinate req)
  assume d: "prioritySorted s"
  show ?thesis unfolding Coordinate exec.simps
    using d prioritySorted_addToQueue [OF d, of now req]
    by (simp add: prioritySorted_def requestCoordination_queue sorted_map_removeFirst
             split: option.splits)
next
  case (Acquire a r p)
  assume d: "prioritySorted s"
  show ?thesis unfolding Acquire exec.simps
    using d
    by (simp add: prioritySorted_def acquireLock_queue sorted_map_removeFirst)
next
  case (Release a r)
  assume d: "prioritySorted s"
  show ?thesis unfolding Release exec.simps
    using d
    by (simp add: prioritySorted_def releaseLock_queue sorted_map_removeFirst
             split: option.splits)
qed

lemma prioritySorted_run: "prioritySorted s \<Longrightarrow> prioritySorted (run evs s)"
  by (induction evs s rule: run.induct) (simp_all add: prioritySorted_exec)

lemma prioritySorted_initial: "prioritySorted initial"
  by (simp add: prioritySorted_def initial_def)

lemma filter_Cons_find:
  "filter P xs = e # rest \<Longrightarrow> List.find P xs = Some e \<and> filter P (remove1 e xs) = rest"
proof (induction xs)
  case Nil
  then show ?case by simp
next
  case (Cons x xs)
  show ?case
  proof (cases "P x")
    case True
    with Cons.prems show ?thesis by simp
  next
    case False
    with Cons.prems have f: "filter P xs = e # rest" by simp
    then have "e \<in> set (filter P xs)" by simp
    then have "P e" by simp
    with False have "x \<noteq> e" by blast
    with False Cons.IH [OF f] show ?thesis by simp
  qed
qed

lemma coordinate_appends_waiter:
  assumes srt: "prioritySorted s"
    and l: "locks s r = Some l" and live: "now < expiresAt l"
    and other: "lockedBy l \<noteq> reqAgentId req" and res: "reqResource req = r"
    and ws: "\<forall>q\<in>set (waiters r s). qAgentId q \<noteq> reqAgentId req \<and> reqPriority req \<le> qPriority q"
  shows "waiters r (snd (requestCoordination now req s)) =
           waiters r s @ [\<lparr>qAgentId = reqAgentId req, qResource = r,
                            qPriority = reqPriority req, requestedAt = now\<rparr>]"
    and "locks (snd (requestCoordination now req s)) = locks s"
    and "prioritySorted (snd (requestCoordination now req s))"
proof -
  let ?e = "\<lparr>qAgentId = reqAgentId req, qResource = reqResource req,
             qPriority = reqPriority req, requestedAt = now\<rparr>"
  let ?f = "\<lambda>e. - qPriority e"
  let ?tw = "takeWhile (\<lambda>y. ?f y \<le> ?f ?e) (queue s)"
  let ?dw = "dropWhile (\<lambda>y. ?f y \<le> ?f ?e) (queue s)"
  let ?R = "\<lambda>q. qResource q = r"
  have sn: "snd (requestCoordination now req s) = addToQueue now req s"
    using l live other res by (simp add: requestCoordination_def Let_def)
  show "locks (snd (requestCoordination now req s)) = locks s"
    by (simp add: sn addToQueue_locks)
  show "prioritySorted (snd (requestCoordination now req s))"
    using srt by (simp add: sn prioritySorted_addToQueue)
  have none: "List.find (\<lambda>q. qAgentId q = reqAgentId req \<and> qResource q = reqResource req) (queue s)
              = None"
    using ws res by (auto simp: find_None_iff waiters_def)
  from srt have srt': "sorted (map ?f (queue s))" by (simp add: prioritySorted_def)
  have q': "queue (addToQueue now req s) = ?tw @ ?e # ?dw"
    using none sort_key_snoc_sorted [OF srt', of ?e]
    by (simp add: addToQueue_def sortByPriority_def)
  have "\<forall>y\<in>set ?dw. \<not> ?R y"
  proof
    fix y assume y: "y \<in> set ?dw"
    with dropWhile_sorted_above [OF srt', of "?f ?e"] have "qPriority y < reqPriority req"
      by fastforce
    moreover from y have "y \<in> set (queue s)" by (rule set_dropWhileD)
    ultimately show "\<not> ?R y" using ws by (fastforce simp: waiters_def)
  qed
  then have dw: "filter ?R ?dw = []" by (simp add: filter_empty_conv)
  have "filter ?R (queue s) = filter ?R (?tw @ ?dw)" by simp
  also have "\<dots> = filter ?R ?tw" using dw by (simp only: filter_append append_Nil2)
  finally have tw: "filter ?R ?tw = filter ?R (queue s)" by simp
  show "waiters r (snd (requestCoordination now req s)) =
           waiters r s @ [\<lparr>qAgentId = reqAgentId req, qResource = r,
                            qPriority = reqPriority req, requestedAt = now\<rparr>]"
    using tw dw res by (simp add: sn waiters_def q')
qed

lemma release_promotes_head:
  assumes l: "locks s r = Some l" and h: "lockedBy l = a" and ws: "waiters r s = e # rest"
  shows "fst (releaseLock now a r s) = Inr True"
    and "locks (snd (releaseLock now a r s)) r = Some (newLock now (qAgentId e) r (qPriority e))"
    and "waiters r (snd (releaseLock now a r s)) = rest"
proof -
  from ws have f: "List.find (\<lambda>q. qResource q = r) (queue s) = Some e"
    and rm: "filter (\<lambda>q. qResource q = r) (remove1 e (queue s)) = rest"
    using filter_Cons_find [of "\<lambda>q. qResource q = r" "queue s" e rest]
    by (simp_all add: waiters_def)
  show "fst (releaseLock now a r s) = Inr True"
    by (rule releaseLock_holder(1) [OF l h])
  show "locks (snd (releaseLock now a r s)) r = Some (newLock now (qAgentId e) r (qPriority e))"
    using releaseLock_holder(2) [OF l h, of now] f by simp
  show "waiters r (snd (releaseLock now a r s)) = rest"
    using releaseLock_holder(3) [OF l h, of now] f rm by (simp add: waiters_def)
qed

lemma fifo_among_equals:
  assumes srt: "prioritySorted s"
    and l: "locks s r = Some l" and h: "lockedBy l = h"
    and live: "t1 < expiresAt l" "t2 < expiresAt l" "t3 < expiresAt l"
    and empty: "waiters r s = []"
    and dist: "distinct [h, a, b, c]"
    and ra: "reqAgentId ra = a" "reqResource ra = r" "reqPriority ra = p"
    and rb: "reqAgentId rb = b" "reqResource rb = r" "reqPriority rb = p"
    and rc: "reqAgentId rc = c" "reqResource rc = r" "reqPriority rc = p"
  shows "let s3 = run [(t1, Coordinate ra), (t2, Coordinate rb), (t3, Coordinate rc)] s;
             s4 = snd (releaseLock t4 h r s3);
             s5 = snd (releaseLock t5 a r s4);
             s6 = snd (releaseLock t6 b r s5)
         in fst (releaseLock t4 h r s3) = Inr True
            \<and> locks s4 r = Some (newLock t4 a r p)
            \<and> fst (releaseLock t5 a r s4) = Inr True
            \<and> locks s5 r = Some (newLock t5 b r p)
            \<and> fst (releaseLock t6 b r s5) = Inr True
            \<and> locks s6 r = Some (newLock t6 c r p)"
proof -
  define s1 where "s1 = snd (requestCoordination t1 ra s)"
  define s2 where "s2 = snd (requestCoordination t2 rb s1)"
  define s3 where "s3 = snd (requestCoordination t3 rc s2)"
  define ea where "ea = \<lparr>qAgentId = a, qResource = r, qPriority = p, requestedAt = t1\<rparr>"
  define eb where "eb = \<lparr>qAgentId = b, qResource = r, qPriority = p, requestedAt = t2\<rparr>"
  define ec where "ec = \<lparr>qAgentId = c, qResource = r, qPriority = p, requestedAt = t3\<rparr>"
  from dist h have ha: "lockedBy l \<noteq> reqAgentId ra" and hb: "lockedBy l \<noteq> reqAgentId rb"
    and hc: "lockedBy l \<noteq> reqAgentId rc"
    by (auto simp: ra rb rc)
  have w0: "\<forall>q\<in>set (waiters r s). qAgentId q \<noteq> reqAgentId ra \<and> reqPriority ra \<le> qPriority q"
    by (simp add: empty)
  note st1 = coordinate_appends_waiter [OF srt l live(1) ha ra(2) w0]
  have w1: "waiters r s1 = [ea]" and l1: "locks s1 r = Some l" and srt1: "prioritySorted s1"
    using st1 by (simp_all add: s1_def ea_def empty ra l)
  have w1': "\<forall>q\<in>set (waiters r s1). qAgentId q \<noteq> reqAgentId rb \<and> reqPriority rb \<le> qPriority q"
    using dist by (simp add: w1 ea_def rb)
  note st2 = coordinate_appends_waiter [OF srt1 l1 live(2) hb rb(2) w1']
  have w2: "waiters r s2 = [ea, eb]" and l2: "locks s2 r = Some l" and srt2: "prioritySorted s2"
    using st2 by (simp_all add: s2_def eb_def w1 rb l1)
  have w2': "\<forall>q\<in>set (waiters r s2). qAgentId q \<noteq> reqAgentId rc \<and> reqPriority rc \<le> qPriority q"
    using dist by (simp add: w2 ea_def eb_def rc)
  note st3 = coordinate_appends_waiter [OF srt2 l2 live(3) hc rc(2) w2']
  have w3: "waiters r s3 = [ea, eb, ec]" and l3: "locks s3 r = Some l"
    using st3 by (simp_all add: s3_def ec_def w2 rc l2)
  have run3: "run [(t1, Coordinate ra), (t2, Coordinate rb), (t3, Coordinate rc)] s = s3"
    by (simp add: s1_def s2_def s3_def)
  define s4 where "s4 = snd (releaseLock t4 h r s3)"
  define s5 where "s5 = snd (releaseLock t5 a r s4)"
  define s6 where "s6 = snd (releaseLock t6 b r s5)"
  note r4 = release_promotes_head [OF l3 h w3, of t4]
  have l4: "locks s4 r = Some (newLock t4 a r p)" and w4: "waiters r s4 = [eb, ec]"
    using r4 by (simp_all add: s4_def ea_def)
  have "lockedBy (newLock t4 a r p) = a" by (simp add: newLock_def)
  note r5 = release_promotes_head [OF l4 this w4, of t5]
  have l5: "locks s5 r = Some (newLock t5 b r p)" and w5: "waiters r s5 = [ec]"
    using r5 by (simp_all add: s5_def eb_def)
  have "lockedBy (newLock t5 b r p) = b" by (simp add: newLock_def)
  note r6 = release_promotes_head [OF l5 this w5, of t6]
  have l6: "locks s6 r = Some (newLock t6 c r p)"
    using r6 by (simp_all add: s6_def ec_def)
  show ?thesis
    unfolding Let_def run3
    using r4(1) r5(1) r6(1) l4 l5 l6
    by (simp add: s4_def s5_def s6_def)
qed

lemma releaseLock_other_locks:
  "r' \<noteq> r \<Longrightarrow> locks (snd (releaseLock now a r s)) r' = locks s r'"
  by (simp add: releaseLock_locks split: option.splits)

lemma release_by_holder_reachable:
  assumes srt: "sorted (map fst evs)"
    and l: "locks (run evs initial) r = Some l" and h: "lockedBy l = agentId"
  shows "fst (releaseLock now agentId r (run evs initial)) = Inr True
      \<and> (\<forall>r'. r' \<noteq> r \<longrightarrow>
            locks (snd (releaseLock now agentId r (run evs initial))) r' = locks (run evs initial) r')
      \<and> (case List.find (\<lambda>q. qResource q = r) (queue (run evs initial)) of
           None \<Rightarrow>
             locks (snd (releaseLock now agentId r (run evs initial))) r = None
             \<and> queue (snd (releaseLock now agentId r (run evs initial))) = queue (run evs initial)
         | Some e \<Rightarrow>
             (\<forall>q\<in>set (queue (run evs initial)). qResource q = r \<longrightarrow>
                 qPriority q \<le> qPriority e
                 \<and> (qPriority q = qPriority e \<longrightarrow> requestedAt e \<le> requestedAt q))
             \<and> locks (snd (releaseLock now agentId r (run evs initial))) r
                 = Some (newLock now (qAgentId e) r (qPriority e))
             \<and> queue (snd (releaseLock now agentId r (run evs initial)))
                 = remove1 e (queue (run evs initial))
             \<and> e \<notin> set (queue (snd (releaseLock now agentId r (run evs initial)))))"
proof -
  let ?s = "run evs initial"
  note rel = releaseLock_holder [OF l h, of now]
  have others: "\<forall>r'. r' \<noteq> r \<longrightarrow> locks (snd (releaseLock now agentId r ?s)) r' = locks ?s r'"
    by (simp add: releaseLock_other_locks)
  have "queueDistinct ?s" by (rule queueDistinct_run [OF queueDistinct_initial])
  then have dq: "distinct (queue ?s)" by (simp add: queueDistinct_def distinct_map)
  show ?thesis
  proof (cases "List.find (\<lambda>q. qResource q = r) (queue ?s)")
    case None
    with rel others show ?thesis by simp
  next
    case (Some e)
    have best: "\<forall>q\<in>set (queue ?s). qResource q = r \<longrightarrow>
                 qPriority q \<le> qPriority e
                 \<and> (qPriority q = qPriority e \<longrightarrow> requestedAt e \<le> requestedAt q)"
      using promoted_is_best [OF srt Some] by blast
    have gone: "e \<notin> set (remove1 e (queue ?s))" using dq by simp
    from rel others Some best gone show ?thesis by simp
  qed
qed

section \<open>The lock table\<close>

text \<open>
  Claim C1. After every sequence of \<^verbatim>\<open>requestCoordination\<close>, \<^verbatim>\<open>acquireLock\<close> and
  \<^verbatim>\<open>releaseLock\<close> calls, starting from the empty service, the lock table holds at most
  one lock per resource: two entries of the table whose locks name the same resource are
  the same entry, so no two distinct callers are the recorded holder of one resource.
\<close>

theorem lock_table_single_holder:
  "locks (run evs initial) r1 = Some l1 \<Longrightarrow> locks (run evs initial) r2 = Some l2 \<Longrightarrow>
   resource l1 = resource l2 \<Longrightarrow> r1 = r2 \<and> l1 = l2 \<and> lockedBy l1 = lockedBy l2"
proof -
  assume a1: "locks (run evs initial) r1 = Some l1"
    and a2: "locks (run evs initial) r2 = Some l2"
    and eq: "resource l1 = resource l2"
  have inv: "lockKeyed (run evs initial)"
    by (rule lockKeyed_run [OF lockKeyed_initial])
  from inv a1 have "resource l1 = r1" by (simp add: lockKeyed_def)
  moreover from inv a2 have "resource l2 = r2" by (simp add: lockKeyed_def)
  ultimately have "r1 = r2" using eq by simp
  with a1 a2 show ?thesis by simp
qed

theorem lock_table_single_holder_witness:
  "locks (run [(0, Acquire ''a1'' ''db'' (Some 5)),
               (1, Coordinate \<lparr>reqAgentId = ''a2'', reqResource = ''db'', operation = Write,
                                expectedDurationMs = 100, reqPriority = 5\<rparr>),
               (2, Acquire ''a2'' ''db'' (Some 9)),
               (3, Acquire ''a3'' ''cache'' None)] initial) ''db''
     = Some (newLock 2 ''a2'' ''db'' 9)
   \<and> resource (newLock 2 ''a2'' ''db'' 9) = resource (newLock 2 ''a2'' ''db'' 9)
   \<and> lockedBy (newLock 2 ''a2'' ''db'' 9) = lockedBy (newLock 2 ''a2'' ''db'' 9)"
  using lock_table_single_holder
    [of "[(0, Acquire ''a1'' ''db'' (Some 5)),
          (1, Coordinate \<lparr>reqAgentId = ''a2'', reqResource = ''db'', operation = Write,
                           expectedDurationMs = 100, reqPriority = 5\<rparr>),
          (2, Acquire ''a2'' ''db'' (Some 9)),
          (3, Acquire ''a3'' ''cache'' None)]"
        "''db''" "newLock 2 ''a2'' ''db'' 9" "''db''" "newLock 2 ''a2'' ''db'' 9"]
  by (simp add: arbiter_eval)

section \<open>Acquiring\<close>

text \<open>
  Claim C2. \<^verbatim>\<open>acquireLock\<close>: when the resource has no entry, or its entry has expired, the
  call returns a new lock held by the caller and stores it. When a live lock of a different
  caller exists, the call returns a lock exactly when the requested priority is strictly
  greater than the holder's; the new lock then replaces the holder's entry. At equal
  priority the call returns \<^verbatim>\<open>null\<close> and changes nothing.
\<close>

theorem acquireLock_decision:
  "((locks s r = None \<or> (\<exists>l. locks s r = Some l \<and> expiresAt l \<le> now)) \<longrightarrow>
      fst (acquireLock now a r p s) = Some (newLock now a r p)
      \<and> locks (snd (acquireLock now a r p s)) r = Some (newLock now a r p))
   \<and> (\<forall>l. locks s r = Some l \<and> now < expiresAt l \<and> lockedBy l \<noteq> a \<longrightarrow>
         (fst (acquireLock now a r p s) \<noteq> None) = (priority l < p)
         \<and> (priority l < p \<longrightarrow>
              fst (acquireLock now a r p s) = Some (newLock now a r p)
              \<and> locks (snd (acquireLock now a r p s)) r = Some (newLock now a r p))
         \<and> (p = priority l \<longrightarrow>
              fst (acquireLock now a r p s) = None \<and> snd (acquireLock now a r p s) = s))"
  by (auto simp: acquireLock_def Let_def locks_removeFromQueue)

theorem acquireLock_decision_witness:
  "locks initial ''db'' = None
   \<and> fst (acquireLock 0 ''a1'' ''db'' 5 initial) = Some (newLock 0 ''a1'' ''db'' 5)
   \<and> locks (snd (acquireLock 0 ''a1'' ''db'' 5 initial)) ''db'' = Some (newLock 0 ''a1'' ''db'' 5)
   \<and> fst (acquireLock 30000 ''a2'' ''db'' 1 (snd (acquireLock 0 ''a1'' ''db'' 5 initial)))
       = Some (newLock 30000 ''a2'' ''db'' 1)
   \<and> fst (acquireLock 10 ''a2'' ''db'' 10 (snd (acquireLock 0 ''a1'' ''db'' 5 initial)))
       = Some (newLock 10 ''a2'' ''db'' 10)
   \<and> locks (snd (acquireLock 10 ''a2'' ''db'' 10 (snd (acquireLock 0 ''a1'' ''db'' 5 initial)))) ''db''
       = Some (newLock 10 ''a2'' ''db'' 10)
   \<and> fst (acquireLock 10 ''a2'' ''db'' 5 (snd (acquireLock 0 ''a1'' ''db'' 5 initial))) = None
   \<and> snd (acquireLock 10 ''a2'' ''db'' 5 (snd (acquireLock 0 ''a1'' ''db'' 5 initial)))
       = snd (acquireLock 0 ''a1'' ''db'' 5 initial)"
  using acquireLock_decision [of initial "''db''" 0 "''a1''" 5]
    acquireLock_decision [of "snd (acquireLock 0 ''a1'' ''db'' 5 initial)" "''db''" 30000 "''a2''" 1]
    acquireLock_decision [of "snd (acquireLock 0 ''a1'' ''db'' 5 initial)" "''db''" 10 "''a2''" 10]
    acquireLock_decision [of "snd (acquireLock 0 ''a1'' ''db'' 5 initial)" "''db''" 10 "''a2''" 5]
  by (simp add: arbiter_eval)

section \<open>Coordination requests\<close>

text \<open>
  Claim C3, as stated, fails: a request of priority 10 through \<^verbatim>\<open>requestCoordination\<close> on
  a resource held live at priority 5 by another caller is not granted. The method tests
  for a live lock of another caller before it ever calls \<^verbatim>\<open>acquireLock\<close>, and queues the
  request in that case; the holder keeps the lock.
\<close>

theorem coordinate_preempts_counterexample:
  "locks (snd (acquireLock 0 ''a1'' ''db'' 5 initial)) ''db'' = Some (newLock 0 ''a1'' ''db'' 5)
   \<and> 1000 < expiresAt (newLock 0 ''a1'' ''db'' 5)
   \<and> lockedBy (newLock 0 ''a1'' ''db'' 5) \<noteq> ''a2''
   \<and> priority (newLock 0 ''a1'' ''db'' 5) < reqPriority (request ''a2'' ''db'' 10)
   \<and> \<not> granted (fst (requestCoordination 1000 (request ''a2'' ''db'' 10)
                        (snd (acquireLock 0 ''a1'' ''db'' 5 initial))))
   \<and> lock (fst (requestCoordination 1000 (request ''a2'' ''db'' 10)
                        (snd (acquireLock 0 ''a1'' ''db'' 5 initial)))) = None
   \<and> queue (snd (requestCoordination 1000 (request ''a2'' ''db'' 10)
                        (snd (acquireLock 0 ''a1'' ''db'' 5 initial))))
       = [\<lparr>qAgentId = ''a2'', qResource = ''db'', qPriority = 10, requestedAt = 1000\<rparr>]
   \<and> locks (snd (requestCoordination 1000 (request ''a2'' ''db'' 10)
                        (snd (acquireLock 0 ''a1'' ''db'' 5 initial)))) ''db''
       = Some (newLock 0 ''a1'' ''db'' 5)"
  by (simp add: ex_eval)

text \<open>
  Claim C3, amended. A \<^verbatim>\<open>requestCoordination\<close> call on a resource held by a live lock of a
  different caller is never granted, whatever the two priorities: the result has
  \<^verbatim>\<open>granted: false\<close> and no lock, the request is added to the queue (if the caller is not
  queued for the resource yet), and the lock table is left as it was. After the call the
  caller has an entry in the queue for the resource, at a position of at least 1.
\<close>

theorem coordinate_queues_behind_live_holder:
  "locks s (reqResource req) = Some l \<Longrightarrow> now < expiresAt l \<Longrightarrow> lockedBy l \<noteq> reqAgentId req \<Longrightarrow>
   \<not> granted (fst (requestCoordination now req s))
   \<and> lock (fst (requestCoordination now req s)) = None
   \<and> snd (requestCoordination now req s) = addToQueue now req s
   \<and> locks (snd (requestCoordination now req s)) = locks s
   \<and> (\<exists>q\<in>set (queue (snd (requestCoordination now req s))).
         qAgentId q = reqAgentId req \<and> qResource q = reqResource req)
   \<and> 1 \<le> getQueuePosition (reqAgentId req) (reqResource req) (snd (requestCoordination now req s))"
proof -
  assume l: "locks s (reqResource req) = Some l" and live: "now < expiresAt l"
    and other: "lockedBy l \<noteq> reqAgentId req"
  note eq = requestCoordination_queued [OF l live other]
  have mem: "\<exists>q\<in>set (queue (addToQueue now req s)).
      qAgentId q = reqAgentId req \<and> qResource q = reqResource req"
    by (rule addToQueue_member)
  from eq mem getQueuePosition_pos [OF mem] show ?thesis
    by (simp add: addToQueue_locks)
qed

theorem coordinate_queues_behind_live_holder_witness:
  "locks (snd (acquireLock 0 ''a1'' ''db'' 5 initial)) (reqResource (request ''a2'' ''db'' 10))
     = Some (newLock 0 ''a1'' ''db'' 5)
   \<and> 1000 < expiresAt (newLock 0 ''a1'' ''db'' 5)
   \<and> lockedBy (newLock 0 ''a1'' ''db'' 5) \<noteq> reqAgentId (request ''a2'' ''db'' 10)
   \<and> \<not> granted (fst (requestCoordination 1000 (request ''a2'' ''db'' 10)
                        (snd (acquireLock 0 ''a1'' ''db'' 5 initial))))
   \<and> queue (snd (requestCoordination 1000 (request ''a2'' ''db'' 10)
                        (snd (acquireLock 0 ''a1'' ''db'' 5 initial))))
       = [\<lparr>qAgentId = ''a2'', qResource = ''db'', qPriority = 10, requestedAt = 1000\<rparr>]
   \<and> getQueuePosition ''a2'' ''db''
        (snd (requestCoordination 1000 (request ''a2'' ''db'' 10)
                        (snd (acquireLock 0 ''a1'' ''db'' 5 initial)))) = 1"
  using coordinate_queues_behind_live_holder
    [of "snd (acquireLock 0 ''a1'' ''db'' 5 initial)" "request ''a2'' ''db'' 10"
        "newLock 0 ''a1'' ''db'' 5" 1000]
  by (simp add: ex_eval)

text \<open>
  Claim C7, on the code. For every \<^verbatim>\<open>requestCoordination\<close> call that is not granted, the
  request is queued, the returned \<^verbatim>\<open>queuePosition\<close> is the promise of the caller's position
  and the returned \<^verbatim>\<open>estimatedWaitMs\<close> is \<^verbatim>\<open>NaN\<close>: the method multiplies the promise, not
  the position, by 5000. So the estimate is neither the sum of the remaining TTLs of the
  entries ahead of the request, whatever the remaining TTL of an entry is taken to be, nor
  5000 times the position.
\<close>

theorem estimatedWaitMs_is_NaN:
  "\<not> granted (fst (requestCoordination now req s)) \<Longrightarrow>
   queuePosition (fst (requestCoordination now req s))
     = Some (Fulfilled (getQueuePosition (reqAgentId req) (reqResource req)
                          (snd (requestCoordination now req s))))
   \<and> 1 \<le> getQueuePosition (reqAgentId req) (reqResource req) (snd (requestCoordination now req s))
   \<and> estimatedWaitMs (fst (requestCoordination now req s)) = Some NaN
   \<and> estimatedWaitMs (fst (requestCoordination now req s))
       \<noteq> Some (Number (spec_estimatedWaitMs remainingTtl (snd (requestCoordination now req s))
                          (getQueuePosition (reqAgentId req) (reqResource req)
                             (snd (requestCoordination now req s)))))
   \<and> estimatedWaitMs (fst (requestCoordination now req s))
       \<noteq> Some (Number (getQueuePosition (reqAgentId req) (reqResource req)
                          (snd (requestCoordination now req s)) * 5000))"
proof -
  assume ng: "\<not> granted (fst (requestCoordination now req s))"
  have "\<exists>l. locks s (reqResource req) = Some l \<and> now < expiresAt l \<and> lockedBy l \<noteq> reqAgentId req"
  proof (rule ccontr)
    assume "\<not> ?thesis"
    then have "granted (fst (requestCoordination now req s))"
      by (auto simp: requestCoordination_def acquireLock_def Let_def split: option.splits)
    with ng show False by simp
  qed
  then obtain l where l: "locks s (reqResource req) = Some l" and live: "now < expiresAt l"
    and other: "lockedBy l \<noteq> reqAgentId req" by blast
  note eq = requestCoordination_queued [OF l live other]
  have mem: "\<exists>q\<in>set (queue (addToQueue now req s)).
      qAgentId q = reqAgentId req \<and> qResource q = reqResource req"
    by (rule addToQueue_member)
  from eq getQueuePosition_pos [OF mem] show ?thesis by simp
qed

theorem estimatedWaitMs_is_NaN_witness:
  "\<not> granted (fst (requestCoordination 1000 (request ''a2'' ''db'' 5)
                        (snd (acquireLock 0 ''a1'' ''db'' 5 initial))))
   \<and> queuePosition (fst (requestCoordination 1000 (request ''a2'' ''db'' 5)
                        (snd (acquireLock 0 ''a1'' ''db'' 5 initial)))) = Some (Fulfilled 1)
   \<and> estimatedWaitMs (fst (requestCoordination 1000 (request ''a2'' ''db'' 5)
                        (snd (acquireLock 0 ''a1'' ''db'' 5 initial)))) = Some NaN
   \<and> spec_estimatedWaitMs leaseTtlMs
        (snd (requestCoordination 1000 (request ''a2'' ''db'' 5)
                        (snd (acquireLock 0 ''a1'' ''db'' 5 initial)))) 1 = 0
   \<and> queue (snd (requestCoordination 1000 (request ''a2'' ''db'' 5)
                        (snd (acquireLock 0 ''a1'' ''db'' 5 initial))))
       = [\<lparr>qAgentId = ''a2'', qResource = ''db'', qPriority = 5, requestedAt = 1000\<rparr>]"
  using estimatedWaitMs_is_NaN
    [of 1000 "request ''a2'' ''db'' 5" "snd (acquireLock 0 ''a1'' ''db'' 5 initial)" leaseTtlMs]
  by (simp add: ex_eval spec_estimatedWaitMs_def)

section \<open>Releasing\<close>

text \<open>
  Claim C4. Let the state be the result of any sequence of calls whose clock readings do
  not decrease. A \<^verbatim>\<open>releaseLock\<close> by the holder of a resource returns
  \<^verbatim>\<open>{ released: true }\<close> and touches no other resource's lock. If no entry is queued for
  the resource, its lock is deleted and the queue stays as it is. Otherwise the promoted
  entry is the first one queued for the resource; every entry queued for the resource has
  at most its priority, and those of the same priority were requested no earlier; in the
  same step the lock of the resource becomes a new lock of that entry's caller at that
  entry's priority, and the entry leaves the queue. In particular, when three callers
  \<open>a\<close>, \<open>b\<close>, \<open>c\<close> request a held resource without waiters in this order with one
  priority, three successive releases (by the holder, by \<open>a\<close>, by \<open>b\<close>) give the lock to
  \<open>a\<close>, then \<open>b\<close>, then \<open>c\<close>.
\<close>

theorem releaseLock_promotes_next:
  "(sorted (map fst evs) \<and> locks (run evs initial) r = Some l \<and> lockedBy l = agentId \<longrightarrow>
      fst (releaseLock now agentId r (run evs initial)) = Inr True
      \<and> (\<forall>r'. r' \<noteq> r \<longrightarrow>
            locks (snd (releaseLock now agentId r (run evs initial))) r' = locks (run evs initial) r')
      \<and> (case List.find (\<lambda>q. qResource q = r) (queue (run evs initial)) of
           None \<Rightarrow>
             locks (snd (releaseLock now agentId r (run evs initial))) r = None
             \<and> queue (snd (releaseLock now agentId r (run evs initial))) = queue (run evs initial)
         | Some e \<Rightarrow>
             (\<forall>q\<in>set (queue (run evs initial)). qResource q = r \<longrightarrow>
                 qPriority q \<le> qPriority e
                 \<and> (qPriority q = qPriority e \<longrightarrow> requestedAt e \<le> requestedAt q))
             \<and> locks (snd (releaseLock now agentId r (run evs initial))) r
                 = Some (newLock now (qAgentId e) r (qPriority e))
             \<and> queue (snd (releaseLock now agentId r (run evs initial)))
                 = remove1 e (queue (run evs initial))
             \<and> e \<notin> set (queue (snd (releaseLock now agentId r (run evs initial))))))
   \<and> (locks (run evs initial) r = Some l \<and> lockedBy l = agentId
       \<and> t1 < expiresAt l \<and> t2 < expiresAt l \<and> t3 < expiresAt l
       \<and> waiters r (run evs initial) = [] \<and> distinct [agentId, a, b, c]
       \<and> reqAgentId ra = a \<and> reqResource ra = r \<and> reqPriority ra = p
       \<and> reqAgentId rb = b \<and> reqResource rb = r \<and> reqPriority rb = p
       \<and> reqAgentId rc = c \<and> reqResource rc = r \<and> reqPriority rc = p \<longrightarrow>
       (let s3 = run [(t1, Coordinate ra), (t2, Coordinate rb), (t3, Coordinate rc)]
                   (run evs initial);
            s4 = snd (releaseLock t4 agentId r s3);
            s5 = snd (releaseLock t5 a r s4);
            s6 = snd (releaseLock t6 b r s5)
        in fst (releaseLock t4 agentId r s3) = Inr True
           \<and> locks s4 r = Some (newLock t4 a r p)
           \<and> fst (releaseLock t5 a r s4) = Inr True
           \<and> locks s5 r = Some (newLock t5 b r p)
           \<and> fst (releaseLock t6 b r s5) = Inr True
           \<and> locks s6 r = Some (newLock t6 c r p)))"
proof (intro conjI impI)
  assume "sorted (map fst evs) \<and> locks (run evs initial) r = Some l \<and> lockedBy l = agentId"
  then have srt: "sorted (map fst evs)" and l: "locks (run evs initial) r = Some l"
    and h: "lockedBy l = agentId" by simp_all
  note all = release_by_holder_reachable [OF srt l h, of now]
  from all show "fst (releaseLock now agentId r (run evs initial)) = Inr True" by blast
  from all show "\<forall>r'. r' \<noteq> r \<longrightarrow>
            locks (snd (releaseLock now agentId r (run evs initial))) r' = locks (run evs initial) r'"
    by blast
  from all show "case List.find (\<lambda>q. qResource q = r) (queue (run evs initial)) of
           None \<Rightarrow>
             locks (snd (releaseLock now agentId r (run evs initial))) r = None
             \<and> queue (snd (releaseLock now agentId r (run evs initial))) = queue (run evs initial)
         | Some e \<Rightarrow>
             (\<forall>q\<in>set (queue (run evs initial)). qResource q = r \<longrightarrow>
                 qPriority q \<le> qPriority e
                 \<and> (qPriority q = qPriority e \<longrightarrow> requestedAt e \<le> requestedAt q))
             \<and> locks (snd (releaseLock now agentId r (run evs initial))) r
                 = Some (newLock now (qAgentId e) r (qPriority e))
             \<and> queue (snd (releaseLock now agentId r (run evs initial)))
                 = remove1 e (queue (run evs initial))
             \<and> e \<notin> set (queue (snd (releaseLock now agentId r (run evs initial))))"
    by blast
next
  assume a: "locks (run evs initial) r = Some l \<and> lockedBy l = agentId
       \<and> t1 < expiresAt l \<and> t2 < expiresAt l \<and> t3 < expiresAt l
       \<and> waiters r (run evs initial) = [] \<and> distinct [agentId, a, b, c]
       \<and> reqAgentId ra = a \<and> reqResource ra = r \<and> reqPriority ra = p
       \<and> reqAgentId rb = b \<and> reqResource rb = r \<and> reqPriority rb = p
       \<and> reqAgentId rc = c \<and> reqResource rc = r \<and> reqPriority rc = p"
  have srt: "prioritySorted (run evs initial)"
    by (rule prioritySorted_run [OF prioritySorted_initial])
  from a have l: "locks (run evs initial) r = Some l" and h: "lockedBy l = agentId"
    and live: "t1 < expiresAt l" "t2 < expiresAt l" "t3 < expiresAt l"
    and empty: "waiters r (run evs initial) = []" and dist: "distinct [agentId, a, b, c]"
    and ra: "reqAgentId ra = a" "reqResource ra = r" "reqPriority ra = p"
    and rb: "reqAgentId rb = b" "reqResource rb = r" "reqPriority rb = p"
    and rc: "reqAgentId rc = c" "reqResource rc = r" "reqPriority rc = p"
    by blast+
  show "let s3 = run [(t1, Coordinate ra), (t2, Coordinate rb), (t3, Coordinate rc)]
                   (run evs initial);
            s4 = snd (releaseLock t4 agentId r s3);
            s5 = snd (releaseLock t5 a r s4);
            s6 = snd (releaseLock t6 b r s5)
        in fst (releaseLock t4 agentId r s3) = Inr True
           \<and> locks s4 r = Some (newLock t4 a r p)
           \<and> fst (releaseLock t5 a r s4) = Inr True
           \<and> locks s5 r = Some (newLock t5 b r p)
           \<and> fst (releaseLock t6 b r s5) = Inr True
           \<and> locks s6 r = Some (newLock t6 c r p)"
    by (rule fifo_among_equals [OF srt l h live empty dist ra rb rc])
qed

theorem releaseLock_promotes_next_witness:
  "sorted (map fst [(0::int, Acquire ''h'' ''db'' (Some 5)), (1, Coordinate (request ''a'' ''db'' 3)),
                    (2, Coordinate (request ''b'' ''db'' 7)), (3, Coordinate (request ''c'' ''db'' 7))])
   \<and> locks (run [(0, Acquire ''h'' ''db'' (Some 5)), (1, Coordinate (request ''a'' ''db'' 3)),
                 (2, Coordinate (request ''b'' ''db'' 7)), (3, Coordinate (request ''c'' ''db'' 7))]
              initial) ''db'' = Some (newLock 0 ''h'' ''db'' 5)
   \<and> queue (run [(0, Acquire ''h'' ''db'' (Some 5)), (1, Coordinate (request ''a'' ''db'' 3)),
                 (2, Coordinate (request ''b'' ''db'' 7)), (3, Coordinate (request ''c'' ''db'' 7))]
              initial)
       = [\<lparr>qAgentId = ''b'', qResource = ''db'', qPriority = 7, requestedAt = 2\<rparr>,
          \<lparr>qAgentId = ''c'', qResource = ''db'', qPriority = 7, requestedAt = 3\<rparr>,
          \<lparr>qAgentId = ''a'', qResource = ''db'', qPriority = 3, requestedAt = 1\<rparr>]
   \<and> locks (snd (releaseLock 4 ''h'' ''db''
        (run [(0, Acquire ''h'' ''db'' (Some 5)), (1, Coordinate (request ''a'' ''db'' 3)),
              (2, Coordinate (request ''b'' ''db'' 7)), (3, Coordinate (request ''c'' ''db'' 7))]
           initial))) ''db'' = Some (newLock 4 ''b'' ''db'' 7)
   \<and> queue (snd (releaseLock 4 ''h'' ''db''
        (run [(0, Acquire ''h'' ''db'' (Some 5)), (1, Coordinate (request ''a'' ''db'' 3)),
              (2, Coordinate (request ''b'' ''db'' 7)), (3, Coordinate (request ''c'' ''db'' 7))]
           initial)))
       = [\<lparr>qAgentId = ''c'', qResource = ''db'', qPriority = 7, requestedAt = 3\<rparr>,
          \<lparr>qAgentId = ''a'', qResource = ''db'', qPriority = 3, requestedAt = 1\<rparr>]
   \<and> waiters ''db'' (run [(0, Acquire ''h'' ''db'' (Some 5))] initial) = []
   \<and> locks (snd (releaseLock 6 ''b'' ''db'' (snd (releaseLock 5 ''a'' ''db''
        (snd (releaseLock 4 ''h'' ''db''
           (run [(1, Coordinate (request ''a'' ''db'' 5)), (2, Coordinate (request ''b'' ''db'' 5)),
                 (3, Coordinate (request ''c'' ''db'' 5))]
              (run [(0, Acquire ''h'' ''db'' (Some 5))] initial)))))))) ''db''
       = Some (newLock 6 ''c'' ''db'' 5)"
  using releaseLock_promotes_next
    [where evs = "[(0, Acquire ''h'' ''db'' (Some 5)), (1, Coordinate (request ''a'' ''db'' 3)),
                   (2, Coordinate (request ''b'' ''db'' 7)), (3, Coordinate (request ''c'' ''db'' 7))]"
       and r = "''db''" and l = "newLock 0 ''h'' ''db'' 5" and agentId = "''h''" and now = 4]
    releaseLock_promotes_next
    [where evs = "[(0, Acquire ''h'' ''db'' (Some 5))]"
       and r = "''db''" and l = "newLock 0 ''h'' ''db'' 5" and agentId = "''h''"
       and a = "''a''" and b = "''b''" and c = "''c''" and p = 5
       and ra = "request ''a'' ''db'' 5" and rb = "request ''b'' ''db'' 5"
       and rc = "request ''c'' ''db'' 5"
       and ?t1.0 = 1 and ?t2.0 = 2 and ?t3.0 = 3 and ?t4.0 = 4 and ?t5.0 = 5 and ?t6.0 = 6]
  by (simp add: ex_eval waiters_def)

text \<open>
  Claim C5. \<^verbatim>\<open>releaseLock\<close> by a caller that is not the holder never reports a release and
  leaves the lock table, and the whole state, unchanged: on a resource without an entry it
  returns \<^verbatim>\<open>{ released: false }\<close>, and on a resource held by another caller it throws the
  \<^verbatim>\<open>ConflictException\<close> that names the owner.
\<close>

theorem releaseLock_not_holder:
  "(locks s r = None \<longrightarrow> releaseLock now a r s = (Inr False, s))
   \<and> (\<forall>l. locks s r = Some l \<and> lockedBy l \<noteq> a \<longrightarrow>
         releaseLock now a r s =
           (Inl (ConflictException
              (''Lock on '' @ r @ '' is owned by '' @ lockedBy l @ '', not '' @ a)), s))
   \<and> ((\<forall>l. locks s r = Some l \<longrightarrow> lockedBy l \<noteq> a) \<longrightarrow>
         fst (releaseLock now a r s) \<noteq> Inr True
         \<and> locks (snd (releaseLock now a r s)) = locks s
         \<and> snd (releaseLock now a r s) = s)"
  by (auto simp: releaseLock_def split: option.splits)

theorem releaseLock_not_holder_witness:
  "locks initial ''db'' = None
   \<and> releaseLock 7 ''a2'' ''db'' initial = (Inr False, initial)
   \<and> locks (snd (acquireLock 0 ''a1'' ''db'' 5 initial)) ''db'' = Some (newLock 0 ''a1'' ''db'' 5)
   \<and> lockedBy (newLock 0 ''a1'' ''db'' 5) \<noteq> ''a2''
   \<and> releaseLock 7 ''a2'' ''db'' (snd (acquireLock 0 ''a1'' ''db'' 5 initial))
       = (Inl (ConflictException ''Lock on db is owned by a1, not a2''),
          snd (acquireLock 0 ''a1'' ''db'' 5 initial))"
  using releaseLock_not_holder [of initial "''db''" 7 "''a2''"]
    releaseLock_not_holder [of "snd (acquireLock 0 ''a1'' ''db'' 5 initial)" "''db''" 7 "''a2''"]
  by (simp add: arbiter_eval)

text \<open>
  Claim C10. The ownership test of \<^verbatim>\<open>releaseLock\<close> does not look at the lease. With an
  expired entry in the table, \<^verbatim>\<open>getLockStatus\<close> reports nothing, a release by another caller
  still throws the \<^verbatim>\<open>ConflictException\<close>, and a release by the recorded holder returns
  \<^verbatim>\<open>{ released: true }\<close>, deletes the entry and promotes the first queued entry for the
  resource, if there is one.
\<close>

theorem releaseLock_ignores_expiry:
  "locks s r = Some l \<Longrightarrow> expiresAt l \<le> now \<Longrightarrow>
   fst (getLockStatus now r s) = None
   \<and> (a \<noteq> lockedBy l \<longrightarrow>
        releaseLock now a r s =
          (Inl (ConflictException
             (''Lock on '' @ r @ '' is owned by '' @ lockedBy l @ '', not '' @ a)), s))
   \<and> fst (releaseLock now (lockedBy l) r s) = Inr True
   \<and> locks (snd (releaseLock now (lockedBy l) r s)) r =
       (case List.find (\<lambda>q. qResource q = r) (queue s) of
          None \<Rightarrow> None
        | Some e \<Rightarrow> Some (newLock now (qAgentId e) r (qPriority e)))
   \<and> queue (snd (releaseLock now (lockedBy l) r s)) =
       (case List.find (\<lambda>q. qResource q = r) (queue s) of
          None \<Rightarrow> queue s
        | Some e \<Rightarrow> remove1 e (queue s))"
proof -
  assume l: "locks s r = Some l" and ex: "expiresAt l \<le> now"
  have 1: "fst (getLockStatus now r s) = None"
    using l ex by (simp add: getLockStatus_def)
  have 2: "a \<noteq> lockedBy l \<longrightarrow>
        releaseLock now a r s =
          (Inl (ConflictException
             (''Lock on '' @ r @ '' is owned by '' @ lockedBy l @ '', not '' @ a)), s)"
    using l by (auto simp: releaseLock_def)
  note 3 = releaseLock_holder [OF l refl, of now]
  from 1 2 3 show ?thesis by blast
qed

theorem releaseLock_ignores_expiry_witness:
  "locks (run [(0, Acquire ''a1'' ''db'' (Some 5)), (10, Coordinate (request ''a2'' ''db'' 5))] initial)
       ''db'' = Some (newLock 0 ''a1'' ''db'' 5)
   \<and> expiresAt (newLock 0 ''a1'' ''db'' 5) \<le> 30000
   \<and> fst (getLockStatus 30000 ''db''
         (run [(0, Acquire ''a1'' ''db'' (Some 5)), (10, Coordinate (request ''a2'' ''db'' 5))] initial))
       = None
   \<and> fst (releaseLock 30000 ''a3'' ''db''
         (run [(0, Acquire ''a1'' ''db'' (Some 5)), (10, Coordinate (request ''a2'' ''db'' 5))] initial))
       = Inl (ConflictException ''Lock on db is owned by a1, not a3'')
   \<and> fst (releaseLock 30000 ''a1'' ''db''
         (run [(0, Acquire ''a1'' ''db'' (Some 5)), (10, Coordinate (request ''a2'' ''db'' 5))] initial))
       = Inr True
   \<and> locks (snd (releaseLock 30000 ''a1'' ''db''
         (run [(0, Acquire ''a1'' ''db'' (Some 5)), (10, Coordinate (request ''a2'' ''db'' 5))] initial)))
       ''db'' = Some (newLock 30000 ''a2'' ''db'' 5)
   \<and> queue (snd (releaseLock 30000 ''a1'' ''db''
         (run [(0, Acquire ''a1'' ''db'' (Some 5)), (10, Coordinate (request ''a2'' ''db'' 5))] initial)))
       = []"
  using releaseLock_ignores_expiry
    [of "run [(0, Acquire ''a1'' ''db'' (Some 5)), (10, Coordinate (request ''a2'' ''db'' 5))] initial"
        "''db''" "newLock 0 ''a1'' ''db'' 5" 30000 "''a3''"]
  by (simp add: ex_eval)

section \<open>Status\<close>

text \<open>
  Claim C6. \<^verbatim>\<open>getLockStatus\<close> changes nothing. It returns \<^verbatim>\<open>null\<close> whenever the stored
  lock's expiry time is at or before the clock reading, although the entry is still in
  the table, and returns a lock exactly when that lock is stored for the resource and its
  lease is still running. In particular a lock granted at \<open>t0\<close> is no longer reported
  from \<open>t0 + 30000\<close> on, without any release.
\<close>

theorem getLockStatus_lazy_expiry:
  "snd (getLockStatus now r s) = s
   \<and> (\<forall>l. locks s r = Some l \<and> expiresAt l \<le> now \<longrightarrow> fst (getLockStatus now r s) = None)
   \<and> (\<forall>l. (fst (getLockStatus now r s) = Some l) = (locks s r = Some l \<and> now < expiresAt l))
   \<and> (\<forall>l. fst (acquireLock t0 a r p s) = Some l \<and> t0 + 30000 \<le> now \<longrightarrow>
         locks (snd (acquireLock t0 a r p s)) r = Some l
         \<and> fst (getLockStatus now r (snd (acquireLock t0 a r p s))) = None)"
  by (auto simp: getLockStatus_def acquireLock_def Let_def locks_removeFromQueue newLock_def
           split: option.splits if_splits)

theorem getLockStatus_lazy_expiry_witness:
  "fst (acquireLock 0 ''a1'' ''db'' 5 initial) = Some (newLock 0 ''a1'' ''db'' 5)
   \<and> locks (snd (acquireLock 0 ''a1'' ''db'' 5 initial)) ''db'' = Some (newLock 0 ''a1'' ''db'' 5)
   \<and> expiresAt (newLock 0 ''a1'' ''db'' 5) = 30000
   \<and> fst (getLockStatus 29999 ''db'' (snd (acquireLock 0 ''a1'' ''db'' 5 initial)))
       = Some (newLock 0 ''a1'' ''db'' 5)
   \<and> fst (getLockStatus 30000 ''db'' (snd (acquireLock 0 ''a1'' ''db'' 5 initial))) = None
   \<and> snd (getLockStatus 30000 ''db'' (snd (acquireLock 0 ''a1'' ''db'' 5 initial)))
       = snd (acquireLock 0 ''a1'' ''db'' 5 initial)"
  using getLockStatus_lazy_expiry [of 29999 "''db''" "snd (acquireLock 0 ''a1'' ''db'' 5 initial)"]
    getLockStatus_lazy_expiry [of 30000 "''db''" initial 0 "''a1''" 5]
    getLockStatus_lazy_expiry [of 30000 "''db''" "snd (acquireLock 0 ''a1'' ''db'' 5 initial)"]
  by (simp add: arbiter_eval)

section \<open>The wait queue\<close>

text \<open>
  Claim C8, as stated, fails in its second half: a caller queued for a resource with
  priority 1 at time 10 that requests again with priority 7 at time 20 keeps the entry of
  priority 1 and time 10. \<^verbatim>\<open>addToQueue\<close> does nothing when the caller is already queued.
\<close>

theorem addToQueue_update_counterexample:
  "queue (run [(0, Acquire ''a1'' ''db'' (Some 5)), (10, Coordinate (request ''a2'' ''db'' 1))] initial)
     = [\<lparr>qAgentId = ''a2'', qResource = ''db'', qPriority = 1, requestedAt = 10\<rparr>]
   \<and> reqPriority (request ''a2'' ''db'' 7) = 7
   \<and> queue (addToQueue 20 (request ''a2'' ''db'' 7)
        (run [(0, Acquire ''a1'' ''db'' (Some 5)), (10, Coordinate (request ''a2'' ''db'' 1))] initial))
     = [\<lparr>qAgentId = ''a2'', qResource = ''db'', qPriority = 1, requestedAt = 10\<rparr>]"
  by (simp add: ex_eval)

text \<open>
  Claim C8, amended. Enqueueing never creates a duplicate: after every sequence of calls
  the queue has at most one entry per (caller, resource) pair, and adding to such a queue
  keeps it so. Re-enqueueing a caller that is already queued for the resource leaves the
  service, and with it the existing entry's priority and timestamp, exactly as it was.
\<close>

theorem addToQueue_no_duplicate:
  "distinct (map queueKey (queue (run evs initial)))
   \<and> distinct (map queueKey (queue (addToQueue now req (run evs initial))))
   \<and> (\<forall>e. List.find (\<lambda>q. qAgentId q = reqAgentId req \<and> qResource q = reqResource req) (queue s)
            = Some e \<longrightarrow> addToQueue now req s = s)"
proof -
  have d: "queueDistinct (run evs initial)"
    by (rule queueDistinct_run [OF queueDistinct_initial])
  have 1: "distinct (map queueKey (queue (run evs initial)))"
    using d by (simp add: queueDistinct_def)
  have 2: "distinct (map queueKey (queue (addToQueue now req (run evs initial))))"
    using queueDistinct_addToQueue [OF d] by (simp add: queueDistinct_def)
  have 3: "\<forall>e. List.find (\<lambda>q. qAgentId q = reqAgentId req \<and> qResource q = reqResource req) (queue s)
            = Some e \<longrightarrow> addToQueue now req s = s"
    by (simp add: addToQueue_def)
  from 1 2 3 show ?thesis by blast
qed

theorem addToQueue_no_duplicate_witness:
  "List.find (\<lambda>q. qAgentId q = reqAgentId (request ''a2'' ''db'' 7)
                   \<and> qResource q = reqResource (request ''a2'' ''db'' 7))
     (queue (run [(0, Acquire ''a1'' ''db'' (Some 5)), (10, Coordinate (request ''a2'' ''db'' 1))] initial))
     = Some \<lparr>qAgentId = ''a2'', qResource = ''db'', qPriority = 1, requestedAt = 10\<rparr>
   \<and> addToQueue 20 (request ''a2'' ''db'' 7)
        (run [(0, Acquire ''a1'' ''db'' (Some 5)), (10, Coordinate (request ''a2'' ''db'' 1))] initial)
     = run [(0, Acquire ''a1'' ''db'' (Some 5)), (10, Coordinate (request ''a2'' ''db'' 1))] initial
   \<and> distinct (map queueKey (queue
        (run [(0, Acquire ''a1'' ''db'' (Some 5)), (10, Coordinate (request ''a2'' ''db'' 1)),
              (20, Coordinate (request ''a2'' ''db'' 7)), (30, Coordinate (request ''a3'' ''db'' 7))]
           initial)))"
  using addToQueue_no_duplicate
    [of "[(0, Acquire ''a1'' ''db'' (Some 5)), (10, Coordinate (request ''a2'' ''db'' 1)),
          (20, Coordinate (request ''a2'' ''db'' 7)), (30, Coordinate (request ''a3'' ''db'' 7))]"
        20 "request ''a2'' ''db'' 7"
        "run [(0, Acquire ''a1'' ''db'' (Some 5)), (10, Coordinate (request ''a2'' ''db'' 1))] initial"]
  by (simp add: ex_eval)

text \<open>
  Claim C9, as stated, fails: with one entry for resource \<open>y\<close> ahead in the queue, the only
  waiter for resource \<open>x\<close> is given position 2, while its rank among the entries for \<open>x\<close>
  is 1. The service keeps one queue for all resources and \<^verbatim>\<open>getQueuePosition\<close> returns
  the index in that queue.
\<close>

theorem getQueuePosition_counts_all_resources_counterexample:
  "queue (run [(0, Acquire ''h1'' ''x'' (Some 5)), (1, Acquire ''h2'' ''y'' (Some 5)),
               (2, Coordinate (request ''a1'' ''y'' 5)), (3, Coordinate (request ''a2'' ''x'' 5))]
            initial)
     = [\<lparr>qAgentId = ''a1'', qResource = ''y'', qPriority = 5, requestedAt = 2\<rparr>,
        \<lparr>qAgentId = ''a2'', qResource = ''x'', qPriority = 5, requestedAt = 3\<rparr>]
   \<and> getQueuePosition ''a2'' ''x''
        (run [(0, Acquire ''h1'' ''x'' (Some 5)), (1, Acquire ''h2'' ''y'' (Some 5)),
              (2, Coordinate (request ''a1'' ''y'' 5)), (3, Coordinate (request ''a2'' ''x'' 5))]
           initial) = 2
   \<and> spec_position_of ''a2'' ''x''
        (run [(0, Acquire ''h1'' ''x'' (Some 5)), (1, Acquire ''h2'' ''y'' (Some 5)),
              (2, Coordinate (request ''a1'' ''y'' 5)), (3, Coordinate (request ''a2'' ''x'' 5))]
           initial) = 1"
  by (simp add: ex_eval spec_position_of_def)

text \<open>
  Claim C9, amended. \<^verbatim>\<open>getQueuePosition\<close> returns 0 when the caller has no queued entry for
  the resource; otherwise it returns the 1-indexed position of the caller's entry in the
  one queue shared by all resources, which is its rank among the entries for the same
  resource plus the number of entries for other resources ahead of it.
\<close>

theorem getQueuePosition_global_rank:
  "getQueuePosition a r s =
     (if \<exists>q\<in>set (queue s). qAgentId q = a \<and> qResource q = r
      then int (length (takeWhile (\<lambda>q. \<not> (qAgentId q = a \<and> qResource q = r)) (queue s))) + 1
      else 0)
   \<and> getQueuePosition a r s =
     (if \<exists>q\<in>set (queue s). qAgentId q = a \<and> qResource q = r
      then spec_position_of a r s
           + int (length (filter (\<lambda>q. qResource q \<noteq> r)
                    (takeWhile (\<lambda>q. \<not> (qAgentId q = a \<and> qResource q = r)) (queue s))))
      else 0)"
proof (cases "\<exists>q\<in>set (queue s). qAgentId q = a \<and> qResource q = r")
  case True
  let ?tw = "takeWhile (\<lambda>q. \<not> (qAgentId q = a \<and> qResource q = r)) (queue s)"
  have fi: "findIndex (\<lambda>q. qAgentId q = a \<and> qResource q = r) (queue s) = int (length ?tw)"
    using True by (rule findIndex_takeWhile)
  have pos: "getQueuePosition a r s = int (length ?tw) + 1"
    using fi by (simp add: getQueuePosition_def Let_def)
  have sp: "spec_position_of a r s = int (length (filter (\<lambda>q. qResource q = r) ?tw)) + 1"
    using True by (simp add: spec_position_of_def Let_def findIndex_filter)
  have "length ?tw = length (filter (\<lambda>q. qResource q = r) ?tw)
                     + length (filter (\<lambda>q. \<not> qResource q = r) ?tw)"
    by (rule sum_length_filter_compl [symmetric])
  with pos sp True show ?thesis by simp
next
  case False
  then have "findIndex (\<lambda>q. qAgentId q = a \<and> qResource q = r) (queue s) = - 1"
    by (simp add: findIndex_none)
  with False show ?thesis by (simp add: getQueuePosition_def Let_def)
qed

theorem getQueuePosition_global_rank_witness:
  "getQueuePosition ''a2'' ''x''
        (run [(0, Acquire ''h1'' ''x'' (Some 5)), (1, Acquire ''h2'' ''y'' (Some 5)),
              (2, Coordinate (request ''a1'' ''y'' 5)), (3, Coordinate (request ''a2'' ''x'' 5))]
           initial) = 1 + 1
   \<and> getQueuePosition ''a3'' ''x''
        (run [(0, Acquire ''h1'' ''x'' (Some 5)), (1, Acquire ''h2'' ''y'' (Some 5)),
              (2, Coordinate (request ''a1'' ''y'' 5)), (3, Coordinate (request ''a2'' ''x'' 5))]
           initial) = 0"
  using getQueuePosition_global_rank
    [of "''a2''" "''x''"
        "run [(0, Acquire ''h1'' ''x'' (Some 5)), (1, Acquire ''h2'' ''y'' (Some 5)),
              (2, Coordinate (request ''a1'' ''y'' 5)), (3, Coordinate (request ''a2'' ''x'' 5))]
           initial"]
    getQueuePosition_global_rank
    [of "''a3''" "''x''"
        "run [(0, Acquire ''h1'' ''x'' (Some 5)), (1, Acquire ''h2'' ''y'' (Some 5)),
              (2, Coordinate (request ''a1'' ''y'' 5)), (3, Coordinate (request ''a2'' ''x'' 5))]
           initial"]
  by (simp add: ex_eval spec_position_of_def)

end
